theory Spec2Isabelle
  imports Main "HOL-Library.Word" "HOL-Library.Signed_Division"
begin

unbundle bit_operations_syntax

section \<open>Machine types and what the sources take from elsewhere\<close>

text \<open>
  Drawblock (\<^verbatim>\<open>drawBlock.c\<close>), Initializeprinting (\<^verbatim>\<open>initPrinting.c\<close>) and Printnextpage
  (\<^verbatim>\<open>printNextPage.c\<close>) are embedded as follows. Fillblock (\<^verbatim>\<open>fillBlock.c\<close>) paints the
  border raster and checks every store against the bitmap; no property below depends on
  what it paints, and it is left out.
  \<^item> \<^verbatim>\<open>uchar\<close>, \<^verbatim>\<open>ushort\<close> and \<^verbatim>\<open>uint32_t\<close> are words; their arithmetic wraps.
  \<^item> \<^verbatim>\<open>int\<close> is \<open>int\<close>; \<^verbatim>\<open>/\<close> and \<^verbatim>\<open>%\<close> are \<open>sdiv\<close> and \<open>smod\<close> (truncation towards
    zero). Division by zero has no defined result in C, and neither has signed overflow:
    Initializeprinting and Printnextpage return a \<open>fault\<close> instead of a job where a
    divisor is 0, and Initializeprinting also where one of its \<^verbatim>\<open>int\<close> values does not fit
    32 bits.
  \<^item> The pixel buffer \<^verbatim>\<open>bits\<close> is represented by the offsets that are stored to, in the
    order of the stores; every store of Drawblock writes the value \<^verbatim>\<open>(uchar)black\<close>.
\<close>

type_synonym uchar = "8 word"
type_synonym ushort = "16 word"
type_synonym uint32 = "32 word"

datatype fault = DivisionByZero | SignedOverflow

text \<open>
  Constants, types and helpers that the four files use and do not define are collected in
  one record of parameters: the macro \<^verbatim>\<open>NDATA\<close>, the sentinel \<^verbatim>\<open>SUPERBLOCK\<close>, the mode
  and attribute bits, the size of the \<^verbatim>\<open>name\<close> field, the checksum \<^verbatim>\<open>Crc16\<close>, the
  encoder \<^verbatim>\<open>Encode8\<close> and the file-name helpers \<^verbatim>\<open>fnsplit\<close> and \<^verbatim>\<open>fnmerge\<close>.
\<close>

record externals =
  NDATA :: int
  SUPERBLOCK :: uint32
  PBM_COMPRESSED :: ushort
  PBM_ENCRYPTED :: ushort
  FILE_ATTRIBUTE_READONLY :: uint32
  FILE_ATTRIBUTE_HIDDEN :: uint32
  FILE_ATTRIBUTE_SYSTEM :: uint32
  FILE_ATTRIBUTE_ARCHIVE :: uint32
  FILE_ATTRIBUTE_NORMAL :: uint32
  EXTENSION :: int
  NAMESIZE :: nat
  Crc16 :: "uchar list \<Rightarrow> ushort"
  Encode8 :: "uchar list \<Rightarrow> int \<Rightarrow> uchar list"
  fnsplit :: "uchar list \<Rightarrow> int \<times> uchar list \<times> uchar list"
  fnmerge :: "uchar list \<Rightarrow> uchar list \<Rightarrow> uchar list"

text \<open>Modelled from the spec: the macro \<^verbatim>\<open>NDOT\<close> is not defined in the four files;
  section 3 of the specification gives \<open>NDOT = 32\<close>.\<close>

definition NDOT :: int where
  "NDOT = 32"

definition int32 :: "int \<Rightarrow> bool" where
  "int32 v \<longleftrightarrow> - (2 ^ 31) \<le> v \<and> v < 2 ^ 31"

section \<open>The block record\<close>

text \<open>Modelled from the spec: the declaration of \<^verbatim>\<open>t_data\<close> is not in the four files;
  sections 3 and 6 of the specification give its layout: a 4-byte address, \<^verbatim>\<open>NDATA\<close>
  data bytes, a 2-byte checksum and the error-correction tail, contiguous and
  little-endian.\<close>

record t_data =
  addr :: uint32
  data :: "uchar list"
  crc :: ushort
  ecc :: "uchar list"

definition le_bytes :: "nat \<Rightarrow> 'a::len word \<Rightarrow> uchar list" where
  "le_bytes n w = map (\<lambda>i. ucast (drop_bit (8 * i) w)) [0..<n]"

definition block_bytes :: "t_data \<Rightarrow> uchar list" where
  "block_bytes b = le_bytes 4 (addr b) @ data b @ le_bytes 2 (crc b) @ ecc b"

text \<open>\<^verbatim>\<open>((uint32_t *)block)[j]\<close>: the \<open>j\<close>-th little-endian word of the record.\<close>

definition le_word :: "uchar list \<Rightarrow> uint32" where
  "le_word bs = foldr (\<lambda>b w. ucast b OR push_bit 8 w) bs 0"

definition block_word :: "t_data \<Rightarrow> nat \<Rightarrow> uint32" where
  "block_word b j = le_word (take 4 (drop (4 * j) (block_bytes b)))"

section \<open>Drawblock (drawBlock.c)\<close>

text \<open>Lines 15-18: the checksum and the error-correction code are written into the
  record before it is painted. \<^verbatim>\<open>Encode8\<close> gets a pointer to the record; by section 4.1
  of the specification it reads the first \<open>NDATA + 6\<close> bytes.\<close>

definition Drawblock_block :: "externals \<Rightarrow> t_data \<Rightarrow> t_data" where
  "Drawblock_block X block =
     (let b1 = block\<lparr>crc := Crc16 X (take (nat (NDATA X) + 4) (block_bytes block)) XOR 0x55AA\<rparr>
      in b1\<lparr>ecc := Encode8 X (take (nat (NDATA X) + 6) (block_bytes b1)) 127\<rparr>)"

text \<open>Lines 30-34: one dot, \<open>py\<close> rows of \<open>px\<close> pixels; \<open>at\<close> is the offset of
  \<^verbatim>\<open>bits + x\<close> in the buffer.\<close>

definition dot_stores :: "int \<Rightarrow> int \<Rightarrow> int \<Rightarrow> int \<Rightarrow> int list" where
  "dot_stores at width px py =
     concat (map (\<lambda>m. map (\<lambda>n. at - int m * width + int n) [0..<nat px]) [0..<nat py])"

text \<open>Lines 28-38: the loop over \<open>i\<close>, with \<^verbatim>\<open>t>>=1\<close> and \<^verbatim>\<open>x+=dx\<close>; the first argument
  counts the iterations that are left.\<close>

fun dots_row :: "nat \<Rightarrow> uint32 \<Rightarrow> int \<Rightarrow> int \<Rightarrow> int \<Rightarrow> int \<Rightarrow> int \<Rightarrow> int \<Rightarrow> int list" where
  "dots_row 0 t x bits width dx px py = []"
| "dots_row (Suc k) t x bits width dx px py =
     (if t AND 1 \<noteq> 0 then dot_stores (bits + x) width px py else [])
     @ dots_row k (drop_bit 1 t) (x + dx) bits width dx px py"

text \<open>Lines 21-40: the loop over \<open>j\<close>, with \<^verbatim>\<open>bits-=dy*width\<close>; \<open>j\<close> is the current
  word and the first argument counts the iterations that are left.\<close>

fun dots_rows :: "nat \<Rightarrow> nat \<Rightarrow> t_data \<Rightarrow> int \<Rightarrow> int \<Rightarrow> int \<Rightarrow> int \<Rightarrow> int \<Rightarrow> int \<Rightarrow> int list" where
  "dots_rows 0 j block bits width dx dy px py = []"
| "dots_rows (Suc k) j block bits width dx dy px py =
     (let t = block_word block j;
          t = (if (int j) AND 1 = 0 then t XOR 0x55555555 else t XOR 0xAAAAAAAA)
      in dots_row 32 t 0 bits width dx px py)
     @ dots_rows k (Suc j) block (bits - dy * width) width dx dy px py"

text \<open>Lines 12-14 and the painting loop: the offsets stored to by one call.\<close>

definition Drawblock_stores ::
  "externals \<Rightarrow> int \<Rightarrow> t_data \<Rightarrow> int \<Rightarrow> int \<Rightarrow> int \<Rightarrow> int \<Rightarrow> int \<Rightarrow> int \<Rightarrow> int \<Rightarrow> int \<Rightarrow> int \<Rightarrow> int list" where
  "Drawblock_stores X index block width height border nx ny dx dy px py =
     (let x = (index smod nx) * (NDOT + 3) * dx + 2 * dx + border;
          y = (index sdiv nx) * (NDOT + 3) * dy + 2 * dy + border;
          bits = (height - y - 1) * width + x
      in dots_rows 32 0 (Drawblock_block X block) bits width dx dy px py)"

text \<open>The whole call: the finished record and the stores.\<close>

definition Drawblock ::
  "externals \<Rightarrow> int \<Rightarrow> t_data \<Rightarrow> int \<Rightarrow> int \<Rightarrow> int \<Rightarrow> int \<Rightarrow> int \<Rightarrow> int \<Rightarrow> int \<Rightarrow> int \<Rightarrow> int
     \<Rightarrow> t_data \<times> int list" where
  "Drawblock X index block width height border nx ny dx dy px py =
     (Drawblock_block X block,
      Drawblock_stores X index block width height border nx ny dx dy px py)"

section \<open>The superblock and the print job\<close>

text \<open>Modelled from the spec: the declaration of \<^verbatim>\<open>t_superdata\<close> is not in the four
  files. Section 6 of the specification lists its fields; \<^verbatim>\<open>name\<close> is the last field of
  the data region, and the checksum and the error-correction tail of the block record
  follow the data region. The fields that \<^verbatim>\<open>t_printdata\<close> has under the same name carry
  the prefix \<open>s\<close> here.\<close>

record t_superdata =
  saddr :: uint32
  sdatasize :: uint32
  sorigsize :: uint32
  spagesize :: uint32
  smode :: ushort
  sattributes :: uchar
  spage :: ushort
  smodified :: "64 word"
  sfilecrc :: ushort
  sname :: "uchar list"
  scrc :: ushort
  secc :: "uchar list"

text \<open>\<^verbatim>\<open>(t_data *)&print->superdata\<close>: the superblock read as a block record.\<close>

definition superdata_block :: "t_superdata \<Rightarrow> t_data" where
  "superdata_block sd =
     \<lparr>addr = saddr sd,
      data = le_bytes 4 (sdatasize sd) @ le_bytes 4 (sorigsize sd) @ le_bytes 4 (spagesize sd)
             @ le_bytes 2 (smode sd) @ [sattributes sd] @ le_bytes 2 (spage sd)
             @ le_bytes 8 (smodified sd) @ le_bytes 2 (sfilecrc sd) @ sname sd,
      crc = scrc sd,
      ecc = secc sd\<rparr>"

text \<open>Modelled from the spec: the declaration of \<^verbatim>\<open>t_printdata\<close> is not in the four
  files; the record has the fields that the four files read and write. A C string is the
  list of its characters before the terminator. \<open>drawbits\<close> is the size of the allocated
  pixel buffer, \<open>None\<close> when there is none.\<close>

record t_printdata =
  step :: int
  infile :: "uchar list"
  outbmp :: "uchar list"
  modified :: "64 word"
  attributes :: uint32
  origsize :: uint32
  datasize :: uint32
  alignedsize :: uint32
  pagesize :: uint32
  compression :: int
  encryption :: int
  printborder :: int
  redundancy :: int
  buf :: "uchar list"
  bufcrc :: int
  superdata :: t_superdata
  frompage :: int
  topage :: int
  ppix :: int
  ppiy :: int
  width :: int
  height :: int
  extratop :: int
  extrabottom :: int
  black :: int
  borderleft :: int
  borderright :: int
  bordertop :: int
  borderbottom :: int
  dx :: int
  dy :: int
  px :: int
  py :: int
  nx :: int
  ny :: int
  border :: int
  drawbits :: "int option"

text \<open>The process-wide settings that Initializeprinting reads.\<close>

record config =
  pb_resx :: int
  pb_resy :: int
  pb_dpi :: int
  pb_dotpercent :: int

text \<open>Modelled from the spec: \<^verbatim>\<open>Stopprinting\<close> is called by the four files and not
  defined in them. Section 7 of the specification: the report-and-stop mechanism
  "transitions the job to a terminal state and releases allocations"; section 5: the
  stepper "checks the state between invocations". The terminal state is step 0, in which
  the stepper runs nothing.\<close>

definition Stopprinting :: "t_printdata \<Rightarrow> t_printdata" where
  "Stopprinting print = print\<lparr>step := 0, buf := [], drawbits := None\<rparr>"

definition terminal :: "t_printdata \<Rightarrow> bool" where
  "terminal print \<longleftrightarrow> step print = 0"

section \<open>Initializeprinting (initPrinting.c)\<close>

text \<open>\<^verbatim>\<open>strncpy(dest,src,n)\<close>: the \<open>n\<close> bytes that end up in \<open>dest\<close>; a source shorter than
  \<open>n\<close> is padded with zero bytes, a longer one is cut and not terminated.\<close>

definition strncpy :: "uchar list \<Rightarrow> nat \<Rightarrow> uchar list" where
  "strncpy src n = take n (takeWhile (\<lambda>c. c \<noteq> 0) src @ replicate n 0)"

text \<open>\<^verbatim>\<open>print->superdata.name[i] = '\0'\<close> (line 31). An index inside the field changes
  the name. The index \<^verbatim>\<open>sizeof(name)\<close> is the first byte behind the field: the low byte of
  the little-endian \<open>scrc\<close>.\<close>

definition name_store_zero :: "t_superdata \<Rightarrow> nat \<Rightarrow> t_superdata" where
  "name_store_zero sd i =
     (if i < length (sname sd) then sd\<lparr>sname := (sname sd)[i := 0]\<rparr>
      else if i = length (sname sd) then sd\<lparr>scrc := scrc sd AND 0xFF00\<rparr>
      else sd)"

text \<open>Lines 8-31: the superblock.\<close>

definition init_superdata :: "externals \<Rightarrow> t_printdata \<Rightarrow> t_superdata" where
  "init_superdata X print =
     (let sd = superdata print;
          sd = sd\<lparr>saddr := SUPERBLOCK X\<rparr>;
          sd = sd\<lparr>sdatasize := alignedsize print\<rparr>;
          sd = sd\<lparr>sorigsize := origsize print\<rparr>;
          sd = (if compression print \<noteq> 0 then sd\<lparr>smode := smode sd OR PBM_COMPRESSED X\<rparr> else sd);
          sd = (if encryption print \<noteq> 0 then sd\<lparr>smode := smode sd OR PBM_ENCRYPTED X\<rparr> else sd);
          sd = sd\<lparr>sattributes := ucast (attributes print AND
                 (FILE_ATTRIBUTE_READONLY X OR FILE_ATTRIBUTE_HIDDEN X OR
                  FILE_ATTRIBUTE_SYSTEM X OR FILE_ATTRIBUTE_ARCHIVE X OR
                  FILE_ATTRIBUTE_NORMAL X))\<rparr>;
          sd = sd\<lparr>smodified := modified print\<rparr>;
          sd = sd\<lparr>sfilecrc := word_of_int (bufcrc print)\<rparr>;
          (flags, nam, ext) = fnsplit X (infile print);
          fil = (if flags AND EXTENSION X \<noteq> 0 then fnmerge X nam ext else fnmerge X nam []);
          dataSize = NAMESIZE X;
          sd = sd\<lparr>sname := strncpy fil dataSize\<rparr>
      in name_store_zero sd dataSize)"

text \<open>Lines 38-46 and 57-66: the resolution and the printable area of an A4 page.\<close>

definition init_ppi :: "config \<Rightarrow> int \<times> int" where
  "init_ppi cfg =
     (if pb_resx cfg = 0 \<or> pb_resy cfg = 0 then (300, 300) else (pb_resx cfg, pb_resy cfg))"

definition area_width :: "int \<Rightarrow> int" where
  "area_width ppix' = (ppix' * 8270) sdiv 1000 - (ppix' + ppix' sdiv 2)"

definition area_height :: "int \<Rightarrow> int \<Rightarrow> int \<Rightarrow> int" where
  "area_height ppiy' et eb =
     (ppiy' * 11690) sdiv 1000 - (ppiy' sdiv 2 + ppiy' sdiv 2 + et + eb)"

text \<open>Lines 70-73: the raster and the size of a dot. Lines 75-80: the width of the
  border around the grid.\<close>

definition raster :: "int \<Rightarrow> int \<Rightarrow> int" where
  "raster ppi dpi = max (ppi sdiv dpi) 2"

definition dotsize :: "int \<Rightarrow> int \<Rightarrow> int" where
  "dotsize d dotpercent = max ((d * dotpercent) sdiv 100) 1"

definition grid_border :: "t_printdata \<Rightarrow> int \<Rightarrow> int" where
  "grid_border print dx' =
     (if printborder print \<noteq> 0 then dx' * 16
      else if outbmp print \<noteq> [] then 25
      else 0)"

text \<open>Lines 85-86: the number of cells along one axis.\<close>

definition cells :: "int \<Rightarrow> int \<Rightarrow> int \<Rightarrow> int \<Rightarrow> int" where
  "cells area p b d = (area - p - 2 * b) sdiv (NDOT * d + 3 * d)"

text \<open>The values that lines 70-86 compute for a job: \<open>dx\<close>, \<open>px\<close>, \<open>dy\<close>, \<open>py\<close>, the
  border, and the cell counts \<open>nx\<close> and \<open>ny\<close>.\<close>

definition init_dx :: "config \<Rightarrow> int" where
  "init_dx cfg = raster (fst (init_ppi cfg)) (pb_dpi cfg)"

definition init_px :: "config \<Rightarrow> int" where
  "init_px cfg = dotsize (init_dx cfg) (pb_dotpercent cfg)"

definition init_dy :: "config \<Rightarrow> int" where
  "init_dy cfg = raster (snd (init_ppi cfg)) (pb_dpi cfg)"

definition init_py :: "config \<Rightarrow> int" where
  "init_py cfg = dotsize (init_dy cfg) (pb_dotpercent cfg)"

definition init_border :: "config \<Rightarrow> t_printdata \<Rightarrow> int" where
  "init_border cfg print = grid_border print (init_dx cfg)"

definition init_nx :: "config \<Rightarrow> t_printdata \<Rightarrow> int" where
  "init_nx cfg print =
     cells (area_width (fst (init_ppi cfg))) (init_px cfg) (init_border cfg print) (init_dx cfg)"

definition init_ny :: "config \<Rightarrow> t_printdata \<Rightarrow> int" where
  "init_ny cfg print =
     cells (area_height (snd (init_ppi cfg)) (extratop print) (extrabottom print))
       (init_py cfg) (init_border cfg print) (init_dy cfg)"

text \<open>Lines 92-93: the size of the bitmap. \<^verbatim>\<open>0xFFFFFFFC\<close> is an unsigned constant: the
  conjunction is taken on the 32-bit pattern of the sum.\<close>

definition init_width :: "config \<Rightarrow> t_printdata \<Rightarrow> int" where
  "init_width cfg print =
     (init_nx cfg print * (NDOT + 3) * init_dx cfg + init_px cfg
        + 2 * init_border cfg print + 3) AND 0xFFFFFFFC"

definition init_height :: "config \<Rightarrow> t_printdata \<Rightarrow> int" where
  "init_height cfg print =
     init_ny cfg print * (NDOT + 3) * init_dy cfg + init_py cfg + 2 * init_border cfg print"

text \<open>Lines 131-132: the number of useful bytes on a page, as the \<^verbatim>\<open>int\<close> expression.\<close>

definition init_pagesize :: "externals \<Rightarrow> config \<Rightarrow> t_printdata \<Rightarrow> int" where
  "init_pagesize X cfg print =
     ((init_nx cfg print * init_ny cfg print - redundancy print - 2)
         sdiv (redundancy print + 1)) * redundancy print * NDATA X"

text \<open>The job after lines 8-80, where the first check is made.\<close>

definition init_job :: "externals \<Rightarrow> config \<Rightarrow> t_printdata \<Rightarrow> t_printdata" where
  "init_job X cfg print0 =
     (let print = print0\<lparr>superdata := init_superdata X print0\<rparr>;
          print = print\<lparr>frompage := 0, topage := 9999\<rparr>;
          print = print\<lparr>ppix := fst (init_ppi cfg), ppiy := snd (init_ppi cfg)\<rparr>;
          print = print\<lparr>black := 64\<rparr>;
          print = print\<lparr>borderleft := ppix print, borderright := ppix print sdiv 2,
                        bordertop := ppiy print sdiv 2, borderbottom := ppiy print sdiv 2\<rparr>
      in print\<lparr>border := grid_border print (init_dx cfg)\<rparr>)"

text \<open>The values of type \<^verbatim>\<open>int\<close> that lines 45-86 and the first comparison of line 87
  compute, and those of lines 92-93: C defines the run only if each fits. The third
  comparison of line 87 is reached only when the first two fail; its two values are
  checked there.\<close>

definition init_ints :: "config \<Rightarrow> t_printdata \<Rightarrow> int list" where
  "init_ints cfg print =
     [fst (init_ppi cfg) * 8270, snd (init_ppi cfg) * 11690,
      area_width (fst (init_ppi cfg)),
      area_height (snd (init_ppi cfg)) (extratop print) (extrabottom print),
      init_dx cfg * pb_dotpercent cfg, init_dy cfg * pb_dotpercent cfg, init_dx cfg * 16,
      area_width (fst (init_ppi cfg)) - init_px cfg - 2 * init_border cfg print,
      area_height (snd (init_ppi cfg)) (extratop print) (extrabottom print)
        - init_py cfg - 2 * init_border cfg print,
      NDOT * init_dx cfg + 3 * init_dx cfg, NDOT * init_dy cfg + 3 * init_dy cfg,
      redundancy print + 1]"

definition init_size_ints :: "config \<Rightarrow> t_printdata \<Rightarrow> int list" where
  "init_size_ints cfg print =
     [init_nx cfg print * (NDOT + 3) * init_dx cfg + init_px cfg + 2 * init_border cfg print + 3,
      init_ny cfg print * (NDOT + 3) * init_dy cfg + init_py cfg + 2 * init_border cfg print]"

text \<open>
  The whole function. It returns the job and the messages given to \<^verbatim>\<open>Reporterror\<close>.
  \<open>malloc_ok\<close> says whether \<^verbatim>\<open>malloc\<close> returns a buffer. The \<^verbatim>\<open>else\<close> of line 34 has lost
  its \<^verbatim>\<open>if\<close> in this source; its block is the only path that is left and runs always.
  The header of the bitmap file (lines 96-113) is not part of the model. Line 70
  divides by \<^verbatim>\<open>pb_dpi\<close>, line 131 by \<open>redundancy + 1\<close>.
\<close>

definition Initializeprinting ::
  "externals \<Rightarrow> config \<Rightarrow> bool \<Rightarrow> t_printdata \<Rightarrow> fault + (t_printdata \<times> string list)" where
  "Initializeprinting X cfg malloc_ok print0 =
     (if pb_dpi cfg = 0 then Inl DivisionByZero
      else
        let print = init_job X cfg print0;
            nx' = init_nx cfg print0;
            ny' = init_ny cfg print0
        in if \<not> list_all int32 (init_ints cfg print0) then Inl SignedOverflow
           else if nx' < redundancy print + 1 \<or> ny' < 3
           then Inr (Stopprinting print,
                     [''Printable area is too small, reduce borders or block size''])
           else if \<not> list_all int32 [nx' * ny', 2 * redundancy print + 2]
           then Inl SignedOverflow
           else if nx' * ny' < 2 * redundancy print + 2
           then Inr (Stopprinting print,
                     [''Printable area is too small, reduce borders or block size''])
           else
             let width' = init_width cfg print0;
                 height' = init_height cfg print0
             in if \<not> list_all int32 (init_size_ints cfg print0) then Inl SignedOverflow
                else if outbmp print = []
                then Inr (Stopprinting print, [''Outbmp unspecified, can not creat BMP''])
                else if \<not> int32 (width' * height') then Inl SignedOverflow
                else if \<not> malloc_ok
                then Inr (print\<lparr>drawbits := None\<rparr>, [''Low memory, can't create bitmap''])
                else if redundancy print + 1 = 0 then Inl DivisionByZero
                else if \<not> int32 (init_pagesize X cfg print0) then Inl SignedOverflow
                else
                  let print = print\<lparr>drawbits := Some (width' * height')\<rparr>;
                      print = print\<lparr>pagesize := word_of_int (init_pagesize X cfg print0)\<rparr>;
                      print = print\<lparr>superdata := (superdata print)\<lparr>spagesize := pagesize print\<rparr>\<rparr>;
                      print = print\<lparr>width := width', height := height',
                                    dx := init_dx cfg, dy := init_dy cfg,
                                    px := init_px cfg, py := init_py cfg,
                                    nx := nx', ny := ny'\<rparr>
                  in Inr (print\<lparr>step := step print + 1\<rparr>, []))"

section \<open>Printnextpage (printNextPage.c)\<close>

text \<open>One call of Drawblock on a page: the cell, the finished record and the stores.\<close>

record drawn =
  cell :: int
  stamped :: t_data
  stores :: "int list"

text \<open>The calls of Drawblock of one page, in three parts: the superblocks that head the
  strings (lines 97-103), one list per group with its data blocks followed by its
  redundancy block (lines 105-148), and the superblocks in the remaining cells
  (lines 152-155).\<close>

record page =
  supers :: "drawn list"
  groups :: "drawn list list"
  fillers :: "drawn list"

definition page_draws :: "page \<Rightarrow> drawn list" where
  "page_draws pg = supers pg @ concat (groups pg) @ fillers pg"

text \<open>What \<^verbatim>\<open>fopen\<close> and the three calls of \<^verbatim>\<open>fwrite\<close> do for one page: whether the file
  is created, and whether each write returns the full count.\<close>

record io =
  fopen_ok :: bool
  header_written :: bool
  info_written :: bool
  bits_written :: bool

text \<open>What one call does besides changing the job: the messages given to
  \<^verbatim>\<open>Reporterror\<close> and the page drawn, if any.\<close>

record effects =
  reported :: "string list"
  drawing :: "page option"

text \<open>Line 15: the offset of the page in the data.\<close>

definition page_offset :: "t_printdata \<Rightarrow> uint32" where
  "page_offset print = word_of_int (frompage print) * pagesize print"

text \<open>Lines 41-44: the number of groups on the page.\<close>

definition page_nstring :: "externals \<Rightarrow> t_printdata \<Rightarrow> int" where
  "page_nstring X print =
     (let l = sint (min (alignedsize print - page_offset print) (pagesize print));
          n = (l + NDATA X - 1) sdiv NDATA X
      in (n + redundancy print - 1) sdiv redundancy print)"

text \<open>Lines 45-48: the rows and the height of the bitmap of this page.\<close>

definition page_ny :: "externals \<Rightarrow> t_printdata \<Rightarrow> int" where
  "page_ny X print =
     (let n = (page_nstring X print + 1) * (redundancy print + 1) + 1;
          n = max ((n + nx print - 1) sdiv nx print) 3
      in if ny print > n then n else ny print)"

definition page_height :: "externals \<Rightarrow> t_printdata \<Rightarrow> int" where
  "page_height X print =
     page_ny X print * (NDOT + 3) * dy print + py print + 2 * border print"

text \<open>Lines 98-100: the cell of the superblock that heads string \<open>j\<close>.\<close>

definition super_cell :: "int \<Rightarrow> int \<Rightarrow> int \<Rightarrow> int \<Rightarrow> int" where
  "super_cell nx' r nstring j =
     (let k = j * (nstring + 1)
      in if nstring + 1 \<ge> nx'
         then k + ((nx' sdiv (r + 1)) * j - k smod nx' + nx') smod nx'
         else k)"

text \<open>Lines 127-135: the cell of data block \<open>j\<close> of group \<open>i\<close>.\<close>

definition data_cell :: "int \<Rightarrow> int \<Rightarrow> int \<Rightarrow> int \<Rightarrow> int \<Rightarrow> int" where
  "data_cell nx' r nstring i j =
     (let k = j * (nstring + 1)
      in if nstring + 1 < nx' then k + (i + 1)
         else let rot = ((nx' sdiv (r + 1)) * j - k smod nx' + nx') smod nx'
              in k + (i + 1 + rot) smod (nstring + 1))"

text \<open>Lines 140-146: the cell of the redundancy block of group \<open>i\<close>.\<close>

definition parity_cell :: "int \<Rightarrow> int \<Rightarrow> int \<Rightarrow> int \<Rightarrow> int" where
  "parity_cell nx' r nstring i =
     (let k = r * (nstring + 1)
      in if nstring + 1 < nx' then k + (i + 1)
         else let rot = ((nx' sdiv (r + 1)) * r - k smod nx' + nx') smod nx'
              in k + (i + 1 + rot) smod (nstring + 1))"

text \<open>Lines 112-122: the data block at \<open>offset\<close>; bytes beyond the data are 0. The
  checksum and the error-correction code of the local record are not yet set here;
  Drawblock sets both.\<close>

definition fill_block :: "externals \<Rightarrow> t_printdata \<Rightarrow> uint32 \<Rightarrow> t_data" where
  "fill_block X print offset =
     (let size = alignedsize print;
          l = (if offset < size
               then (let l = sint (size - offset) in if l > NDATA X then NDATA X else l)
               else 0);
          copied = take (nat l) (drop (unat offset) (buf print))
      in \<lparr>addr = offset,
          data = copied @ replicate (nat (NDATA X) - length copied) 0,
          crc = 0, ecc = []\<rparr>)"

text \<open>A call of Drawblock with the geometry of the page.\<close>

definition draw_at :: "externals \<Rightarrow> t_printdata \<Rightarrow> int \<Rightarrow> t_data \<Rightarrow> drawn" where
  "draw_at X print k block =
     (let (b, st) = Drawblock X k block (width print) (page_height X print) (border print)
                      (nx print) (page_ny X print) (dx print) (dy print) (px print) (py print)
      in \<lparr>cell = k, stamped = b, stores = st\<rparr>)"

text \<open>Line 124: the data of a block XOR-ed into the data of the redundancy block.\<close>

definition xor_into :: "t_data \<Rightarrow> t_data \<Rightarrow> t_data" where
  "xor_into cksum block = cksum\<lparr>data := map2 (XOR) (data cksum) (data block)\<rparr>"

text \<open>Lines 110-138: the loop over the data blocks \<open>j\<close> of group \<open>i\<close>. The first argument
  counts the iterations that are left; the result has the calls of Drawblock, the
  offset and the redundancy block after the loop.\<close>

fun group_loop ::
  "nat \<Rightarrow> externals \<Rightarrow> t_printdata \<Rightarrow> int \<Rightarrow> int \<Rightarrow> uint32 \<Rightarrow> t_data
     \<Rightarrow> drawn list \<times> uint32 \<times> t_data" where
  "group_loop 0 X print i j offset cksum = ([], offset, cksum)"
| "group_loop (Suc n) X print i j offset cksum =
     (let block = fill_block X print offset;
          cksum = xor_into cksum block;
          k = data_cell (nx print) (redundancy print) (page_nstring X print) i j;
          d = draw_at X print k block;
          (ds, offset', cksum') =
             group_loop n X print i (j + 1) (offset + word_of_int (NDATA X)) cksum
      in (d # ds, offset', cksum'))"

text \<open>Lines 105-148: the loop over the groups \<open>i\<close>.\<close>

fun strings_loop ::
  "nat \<Rightarrow> externals \<Rightarrow> t_printdata \<Rightarrow> int \<Rightarrow> uint32 \<Rightarrow> drawn list list" where
  "strings_loop 0 X print i offset = []"
| "strings_loop (Suc n) X print i offset =
     (let cksum = \<lparr>addr = offset XOR word_of_int (push_bit 28 (redundancy print)),
                   data = replicate (nat (NDATA X)) 0xFF, crc = 0, ecc = []\<rparr>;
          (ds, offset', cksum') =
             group_loop (nat (redundancy print)) X print i 0 offset cksum;
          k = parity_cell (nx print) (redundancy print) (page_nstring X print) i
      in (ds @ [draw_at X print k cksum']) # strings_loop n X print (i + 1) offset')"

text \<open>Lines 97-155: all calls of Drawblock of the page, for a job whose superblock
  already has the page number.\<close>

definition draw_page :: "externals \<Rightarrow> t_printdata \<Rightarrow> page" where
  "draw_page X print =
     (let nstring = page_nstring X print;
          r = redundancy print;
          sb = superdata_block (superdata print)
      in \<lparr>supers = map (\<lambda>j. draw_at X print (super_cell (nx print) r nstring j) sb) [0..r],
          groups = strings_loop (nat nstring) X print 0 (page_offset print),
          fillers = map (\<lambda>k. draw_at X print k sb)
                      [(nstring + 1) * (r + 1) .. nx print * page_ny X print - 1]\<rparr>)"

text \<open>Drawblock writes the checksum and the error-correction code into the record it
  is given, here the superblock of the job.\<close>

definition superdata_drawn :: "externals \<Rightarrow> t_superdata \<Rightarrow> t_superdata" where
  "superdata_drawn X sd =
     (let b = Drawblock_block X (superdata_block sd) in sd\<lparr>scrc := crc b, secc := ecc b\<rparr>)"

text \<open>Lines 157-214: the bitmap file. The name of the file and the contents of the
  headers are not part of the model. When the first write is short, lines 187-212 are
  skipped as a whole.\<close>

definition save_bitmap :: "io \<Rightarrow> t_printdata \<Rightarrow> t_printdata \<times> string list" where
  "save_bitmap f print =
     (if \<not> fopen_ok f then (Stopprinting print, [''Unable to create bitmap file''])
      else
        let success = header_written f
        in if success
           then (let success = info_written f;
                     success = (if success then bits_written f else success)
                 in if \<not> success then (Stopprinting print, [''Unable to save bitmap''])
                    else (print\<lparr>frompage := frompage print + 1\<rparr>, []))
           else (print\<lparr>frompage := frompage print + 1\<rparr>, []))"

text \<open>
  The whole function. It returns the job, the messages given to \<^verbatim>\<open>Reporterror\<close> and the
  page drawn. The divisions of lines 22, 42, 44, 46 and 100 have the divisors
  \<open>pagesize\<close>, \<open>NDATA\<close>, \<open>redundancy\<close>, \<open>nx\<close> and \<open>redundancy + 1\<close>; the result is a
  fault when one of them is 0. The progress message of lines 23-24, the grid lines of
  lines 50-79 and the border raster of lines 81-90 are not part of the model.
\<close>

definition Printnextpage ::
  "externals \<Rightarrow> io \<Rightarrow> t_printdata \<Rightarrow> fault + (t_printdata \<times> effects)" where
  "Printnextpage X f print =
     (let offset = page_offset print
      in if offset \<ge> datasize print \<or> frompage print > topage print
         then Inr (print\<lparr>step := step print + 1\<rparr>, \<lparr>reported = [], drawing = None\<rparr>)
         else if pagesize print = 0 \<or> NDATA X = 0 \<or> redundancy print = 0 \<or> nx print = 0
                 \<or> redundancy print + 1 = 0
         then Inl DivisionByZero
         else
           let print = print\<lparr>superdata :=
                         (superdata print)\<lparr>spage := word_of_int (frompage print + 1)\<rparr>\<rparr>;
               pg = draw_page X print;
               print = print\<lparr>superdata := superdata_drawn X (superdata print)\<rparr>;
               (print, msgs) = save_bitmap f print
           in Inr (print, \<lparr>reported = msgs, drawing = Some pg\<rparr>))"

section \<open>The emit phase\<close>

text \<open>Modelled from the spec: the stepper that calls the two functions is not in the
  four files. Section 2 of the specification: the emit phase runs once per page,
  "advancing a page counter until the end of the buffer or a caller-supplied
  \<open>topage\<close> limit is reached"; section 5: "the stepper checks the state between
  invocations". The phase calls Printnextpage as long as the job stays in the step in
  which the phase found it and that step is not the terminal one. \<open>f\<close> gives the outcome
  of the file operations for each page number. The result has the job after the phase
  and the effects of the calls, in order.\<close>

function emit_phase ::
  "externals \<Rightarrow> (int \<Rightarrow> io) \<Rightarrow> t_printdata \<Rightarrow> fault + (t_printdata \<times> effects list)" where
  "emit_phase X f print =
     (if terminal print then Inr (print, [])
      else case Printnextpage X (f (frompage print)) print of
             Inl e \<Rightarrow> Inl e
           | Inr (print', eff) \<Rightarrow>
               if step print' = step print
               then (case emit_phase X f print' of
                       Inl e \<Rightarrow> Inl e
                     | Inr (print'', effs) \<Rightarrow> Inr (print'', eff # effs))
               else Inr (print', [eff]))"
  by pat_completeness auto

termination
proof (relation "measure (\<lambda>(X, f, print). nat (topage print + 1 - frompage print))")
  show "wf (measure (\<lambda>(X, f, print). nat (topage print + 1 - frompage print)))"
    by simp
next
  fix X :: externals and f :: "int \<Rightarrow> io" and print x2 print' eff
  assume nt: "\<not> terminal print"
    and call: "Printnextpage X (f (frompage print)) print = Inr x2"
    and x2: "(print', eff) = x2"
    and same: "step print' = step print"
  have "frompage print \<le> topage print \<and> frompage print' = frompage print + 1
        \<and> topage print' = topage print"
    using nt call x2 same
    by (auto simp: Printnextpage_def save_bitmap_def Stopprinting_def terminal_def Let_def
          split: if_splits prod.splits)
  then show "((X, f, print'), (X, f, print))
               \<in> measure (\<lambda>(X, f, print). nat (topage print + 1 - frompage print))"
    by simp
qed

text \<open>The jobs that the emit phase can see: a job that Initializeprinting has prepared
  without reporting an error, for a positive \<^verbatim>\<open>NDATA\<close> and a redundancy of at least 1
  (section 4.4 of the specification), and every job that follows from such a job by a
  call of Printnextpage that draws a page and reports no error.\<close>

inductive emit_reach :: "externals \<Rightarrow> config \<Rightarrow> t_printdata \<Rightarrow> bool"
  for X :: externals and cfg :: config where
  prepared:
    "Initializeprinting X cfg malloc_ok print0 = Inr (print, []) \<Longrightarrow>
     0 < NDATA X \<Longrightarrow> 1 \<le> redundancy print0 \<Longrightarrow> emit_reach X cfg print"
| printed:
    "emit_reach X cfg print \<Longrightarrow> Printnextpage X f print = Inr (print', eff) \<Longrightarrow>
     drawing eff = Some pg \<Longrightarrow> reported eff = [] \<Longrightarrow> emit_reach X cfg print'"

section \<open>The geometry that the emit phase relies on\<close>

text \<open>What Initializeprinting leaves in a job that it has prepared, and what
  Printnextpage keeps: the feasible grid, the raster, the size of the bitmap, the
  capacity of a page, the allocated buffer and the page range.\<close>

definition planned :: "externals \<Rightarrow> t_printdata \<Rightarrow> bool" where
  "planned X print \<longleftrightarrow>
     0 < NDATA X \<and> 1 \<le> redundancy print
     \<and> redundancy print + 1 \<le> nx print \<and> 3 \<le> ny print
     \<and> 2 \<le> dx print \<and> 2 \<le> dy print \<and> 1 \<le> px print \<and> 1 \<le> py print \<and> 0 \<le> border print
     \<and> nx print * (NDOT + 3) * dx print + px print + 2 * border print \<le> width print
     \<and> height print = ny print * (NDOT + 3) * dy print + py print + 2 * border print
     \<and> uint (pagesize print)
           = ((nx print * ny print - redundancy print - 2) div (redundancy print + 1))
               * redundancy print * NDATA X
     \<and> uint (pagesize print) < 2 ^ 31
     \<and> drawbits print = Some (width print * height print)
     \<and> topage print = 9999 \<and> 0 \<le> frompage print"

text \<open>The shift of string \<open>j\<close> that lines 99-100 and 134 compute, written with the
  division and the remainder of non-negative numbers.\<close>

definition rotation :: "int \<Rightarrow> int \<Rightarrow> int \<Rightarrow> int \<Rightarrow> int" where
  "rotation nx' r nstring j =
     (if nstring + 1 \<ge> nx'
      then ((nx' div (r + 1)) * j - (j * (nstring + 1)) mod nx' + nx') mod nx'
      else 0)"

section \<open>The XOR of a group\<close>

text \<open>The byte-wise XOR of a list of data fields of \<open>n\<close> bytes each.\<close>

definition group_xor :: "nat \<Rightarrow> uchar list list \<Rightarrow> uchar list" where
  "group_xor n ds = foldl (map2 (XOR)) (replicate n 0) ds"

section \<open>A concrete instance\<close>

text \<open>One choice of the parameters, for running the definitions on concrete jobs:
  90 data bytes in a block, of which the name field of the superblock takes the last
  63, a checksum that adds the bytes up, an encoder that returns 32 zero bytes, and file
  names without directories.\<close>

definition example_externals :: externals where
  "example_externals =
     \<lparr>NDATA = 90, SUPERBLOCK = 0xFFFFFFFF, PBM_COMPRESSED = 1, PBM_ENCRYPTED = 2,
      FILE_ATTRIBUTE_READONLY = 0x01, FILE_ATTRIBUTE_HIDDEN = 0x02,
      FILE_ATTRIBUTE_SYSTEM = 0x04, FILE_ATTRIBUTE_ARCHIVE = 0x20,
      FILE_ATTRIBUTE_NORMAL = 0x80, EXTENSION = 2, NAMESIZE = 63,
      Crc16 = (\<lambda>bs. sum_list (map ucast bs)),
      Encode8 = (\<lambda>bs pad. replicate 32 0),
      fnsplit = (\<lambda>path. (0, path, [])),
      fnmerge = (\<lambda>nam ext. nam @ ext)\<rparr>"

definition example_block :: t_data where
  "example_block = \<lparr>addr = 0, data = replicate 90 0x41, crc = 0, ecc = []\<rparr>"

definition example_config :: config where
  "example_config = \<lparr>pb_resx = 300, pb_resy = 300, pb_dpi = 30, pb_dotpercent = 70\<rparr>"

definition coarse_config :: config where
  "coarse_config = \<lparr>pb_resx = 300, pb_resy = 300, pb_dpi = 10, pb_dotpercent = 70\<rparr>"

definition example_superdata :: t_superdata where
  "example_superdata =
     \<lparr>saddr = 0, sdatasize = 0, sorigsize = 0, spagesize = 0, smode = 0, sattributes = 0,
      spage = 0, smodified = 0, sfilecrc = 0, sname = replicate 63 0, scrc = 0xABCD,
      secc = replicate 32 0\<rparr>"

text \<open>A job of 1080 bytes with redundancy 2, printed to a bitmap file without border.\<close>

definition example_job :: t_printdata where
  "example_job =
     \<lparr>step = 1, infile = [0x61, 0x2E, 0x62], outbmp = [0x6F, 0x2E, 0x62, 0x6D, 0x70],
      modified = 0, attributes = 0x20, origsize = 1080, datasize = 1080, alignedsize = 1080,
      pagesize = 0, compression = 0, encryption = 0, printborder = 0, redundancy = 2,
      buf = replicate 1080 0x41, bufcrc = 0, superdata = example_superdata,
      frompage = 0, topage = 0, ppix = 0, ppiy = 0, width = 0, height = 0,
      extratop = 0, extrabottom = 0, black = 0, borderleft = 0, borderright = 0,
      bordertop = 0, borderbottom = 0, dx = 0, dy = 0, px = 0, py = 0, nx = 0, ny = 0,
      border = 0, drawbits = None\<rparr>"

text \<open>The example job as Initializeprinting prepares it: a grid of 5 by 9 cells and
  2340 bytes on a page.\<close>

definition example_prepared :: t_printdata where
  "example_prepared =
     (init_job example_externals example_config example_job)
       \<lparr>drawbits := Some (1808 * 3207), pagesize := 2340,
        superdata := (superdata (init_job example_externals example_config example_job))
                       \<lparr>spagesize := 2340\<rparr>,
        width := 1808, height := 3207, dx := 10, dy := 10, px := 7, py := 7, nx := 5, ny := 9,
        step := 2\<rparr>"

text \<open>The same job for a file whose name has 70 characters.\<close>

definition long_name_job :: t_printdata where
  "long_name_job = example_job\<lparr>infile := replicate 70 0x61\<rparr>"

text \<open>File operations that all succeed; the example job with the page number 1 in
  its superblock, the page that Printnextpage draws for it, and the job after that
  page.\<close>

definition all_written :: io where
  "all_written = \<lparr>fopen_ok = True, header_written = True, info_written = True, bits_written = True\<rparr>"

definition example_stamped :: t_printdata where
  "example_stamped = example_prepared\<lparr>superdata := (superdata example_prepared)\<lparr>spage := 1\<rparr>\<rparr>"

definition example_page :: page where
  "example_page = draw_page example_externals example_stamped"

definition example_next :: t_printdata where
  "example_next =
     example_prepared\<lparr>superdata := superdata_drawn example_externals (superdata example_stamped),
                      frompage := 1\<rparr>"







section \<open>Properties of Drawblock\<close>

lemma length_le_bytes: "length (le_bytes n w) = n"
  by (simp add: le_bytes_def)

lemma Drawblock_block_addr: "addr (Drawblock_block X b) = addr b"
  by (simp add: Drawblock_block_def Let_def)

lemma Drawblock_block_data: "data (Drawblock_block X b) = data b"
  by (simp add: Drawblock_block_def Let_def)

lemma take_block_bytes:
  "length (data b) = n \<Longrightarrow> take (n + 4) (block_bytes b) = le_bytes 4 (addr b) @ data b"
  by (simp add: block_bytes_def length_le_bytes)

lemma le_bytes_2_ushort:
  "le_bytes 2 (w :: ushort) = [ucast w, ucast (drop_bit 8 w)]"
  by (simp add: le_bytes_def upt_rec numeral_2_eq_2)

text \<open>
  Claim C8. For every block that Drawblock stamps, the \<open>crc\<close> field of the stamped
  record is Crc16 over the first \<open>NDATA + 4\<close> bytes of the record (the 4-byte
  little-endian address followed by the data bytes) XOR-ed with 0x55AA, and the two
  bytes of the record that follow the data hold this value low byte first.
\<close>

theorem Drawblock_crc:
  assumes "length (data block) = nat (NDATA X)"
    and "fst (Drawblock X index block wd ht bd cx cy ddx ddy ppx ppy) = b'"
  shows "crc b' = Crc16 X (take (nat (NDATA X) + 4) (block_bytes b')) XOR 0x55AA
         \<and> take (nat (NDATA X) + 4) (block_bytes b') = le_bytes 4 (addr block) @ data block
         \<and> take 2 (drop (nat (NDATA X) + 4) (block_bytes b'))
             = [ucast (crc b'), ucast (drop_bit 8 (crc b'))]"
proof -
  have eq: "b' = Drawblock_block X block"
    using assms(2) by (simp add: Drawblock_def)
  have d: "data b' = data block" and a: "addr b' = addr block"
    by (simp_all add: eq Drawblock_block_data Drawblock_block_addr)
  have len: "length (data b') = nat (NDATA X)"
    using assms(1) d by simp
  have pre: "take (nat (NDATA X) + 4) (block_bytes b') = le_bytes 4 (addr block) @ data block"
    using take_block_bytes [OF len] a d by simp
  have pre0: "take (nat (NDATA X) + 4) (block_bytes block) = le_bytes 4 (addr block) @ data block"
    using take_block_bytes [OF assms(1)] by simp
  have c: "crc b' = Crc16 X (take (nat (NDATA X) + 4) (block_bytes block)) XOR 0x55AA"
    by (simp add: eq Drawblock_block_def Let_def)
  have st: "take 2 (drop (nat (NDATA X) + 4) (block_bytes b'))
              = [ucast (crc b'), ucast (drop_bit 8 (crc b'))]"
    using len by (simp add: block_bytes_def length_le_bytes le_bytes_2_ushort)
  show ?thesis
    using c pre pre0 st by simp
qed

theorem Drawblock_crc_witness:
  "length (data example_block) = nat (NDATA example_externals)
   \<and> fst (Drawblock example_externals 0 example_block 8 8 0 1 1 2 2 1 1)
       = Drawblock_block example_externals example_block
   \<and> crc (Drawblock_block example_externals example_block)
       = Crc16 example_externals
           (take (nat (NDATA example_externals) + 4)
              (block_bytes (Drawblock_block example_externals example_block))) XOR 0x55AA"
proof -
  have h1: "length (data example_block) = nat (NDATA example_externals)"
    by (simp add: example_block_def example_externals_def)
  have h2: "fst (Drawblock example_externals 0 example_block 8 8 0 1 1 2 2 1 1)
              = Drawblock_block example_externals example_block"
    by (simp add: Drawblock_def)
  show ?thesis
    using h1 h2 Drawblock_crc [OF h1 h2] by blast
qed

section \<open>Properties of Initializeprinting\<close>

lemma sdiv_nonneg: "0 \<le> a \<Longrightarrow> 0 \<le> b \<Longrightarrow> (a::int) sdiv b = a div b"
  by (simp add: signed_divide_int_def sgn_if)

lemma smod_nonneg: "0 \<le> a \<Longrightarrow> 0 \<le> b \<Longrightarrow> (a::int) smod b = a mod b"
  by (simp add: signed_modulo_int_def sgn_if)

lemma and_fffffffc:
  assumes "0 \<le> (a::int)" "a < 2 ^ 32"
  shows "a AND 0xFFFFFFFC = 4 * (a div 4)"
proof -
  have c: "(0xFFFFFFFC::int) = mask (30 + 2) AND NOT (mask 2)"
    unfolding push_bit_mask_eq [symmetric] by (simp add: mask_eq_exp_minus_1 push_bit_eq_mult)
  have "a AND 0xFFFFFFFC = a AND mask (30 + 2) AND NOT (mask 2)"
    unfolding c by (simp add: and.assoc)
  also have "\<dots> = push_bit 2 (take_bit 30 (drop_bit 2 a))"
    by (rule slice_eq_mask [symmetric])
  also have "\<dots> = 4 * ((a div 4) mod 2 ^ 30)"
    by (simp add: push_bit_eq_mult take_bit_eq_mod drop_bit_eq_div)
  also have "(a div 4) mod 2 ^ 30 = a div 4"
    using assms by (intro mod_pos_pos_trivial) auto
  finally show ?thesis .
qed

lemma round4_ge:
  assumes "0 \<le> (v::int)" "v + 3 < 2 ^ 32"
  shows "v \<le> (v + 3) AND 0xFFFFFFFC"
proof -
  have "(v + 3) AND 0xFFFFFFFC = 4 * ((v + 3) div 4)"
    using assms by (intro and_fffffffc) auto
  then show ?thesis by presburger
qed

lemma init_job_simps:
  "redundancy (init_job X cfg p) = redundancy p"
  "outbmp (init_job X cfg p) = outbmp p"
  "step (init_job X cfg p) = step p"
  "topage (init_job X cfg p) = 9999"
  "frompage (init_job X cfg p) = 0"
  "border (init_job X cfg p) = init_border cfg p"
  "datasize (init_job X cfg p) = datasize p"
  "alignedsize (init_job X cfg p) = alignedsize p"
  "buf (init_job X cfg p) = buf p"
  "drawbits (init_job X cfg p) = drawbits p"
  by (simp_all add: init_job_def Let_def init_border_def grid_border_def)

lemma init_fields:
  assumes "Initializeprinting X cfg m print0 = Inr (print, [])"
  shows "nx print = init_nx cfg print0" "ny print = init_ny cfg print0"
    "dx print = init_dx cfg" "dy print = init_dy cfg" "px print = init_px cfg" "py print = init_py cfg"
    "border print = init_border cfg print0"
    "width print = init_width cfg print0" "height print = init_height cfg print0"
    "pagesize print = word_of_int (init_pagesize X cfg print0)"
    "spagesize (superdata print) = pagesize print"
    "redundancy print = redundancy print0" "topage print = 9999" "frompage print = 0"
    "drawbits print = Some (init_width cfg print0 * init_height cfg print0)"
    "step print = step print0 + 1"
    "datasize print = datasize print0" "alignedsize print = alignedsize print0"
  using assms
  by (auto simp: Initializeprinting_def Let_def init_job_simps split: if_splits)

lemma init_guards:
  assumes "Initializeprinting X cfg m print0 = Inr (print, [])"
  shows "list_all int32 (init_ints cfg print0)" "list_all int32 (init_size_ints cfg print0)"
    "int32 (init_pagesize X cfg print0)"
    "redundancy print0 + 1 \<le> init_nx cfg print0" "3 \<le> init_ny cfg print0"
  using assms
  by (auto simp: Initializeprinting_def Let_def init_job_simps split: if_splits)

lemma init_dots:
  "2 \<le> init_dx cfg" "2 \<le> init_dy cfg" "1 \<le> init_px cfg" "1 \<le> init_py cfg"
  by (simp_all add: init_dx_def init_dy_def init_px_def init_py_def raster_def dotsize_def)

lemma init_border_nonneg: "0 \<le> init_border cfg print"
  using init_dots(1) [of cfg] by (simp add: init_border_def grid_border_def)

lemma init_pagesize_floor:
  assumes "1 \<le> redundancy print0" "redundancy print0 + 1 \<le> init_nx cfg print0"
    "3 \<le> init_ny cfg print0"
  shows "init_pagesize X cfg print0
           = ((init_nx cfg print0 * init_ny cfg print0 - redundancy print0 - 2)
                div (redundancy print0 + 1)) * redundancy print0 * NDATA X"
    and "redundancy print0 + 1 \<le> init_nx cfg print0 * init_ny cfg print0 - redundancy print0 - 2"
proof -
  have "(redundancy print0 + 1) * 3 \<le> init_nx cfg print0 * init_ny cfg print0"
    using assms by (intro mult_mono) auto
  then show b: "redundancy print0 + 1 \<le> init_nx cfg print0 * init_ny cfg print0 - redundancy print0 - 2"
    using assms(1) by simp
  then show "init_pagesize X cfg print0
           = ((init_nx cfg print0 * init_ny cfg print0 - redundancy print0 - 2)
                div (redundancy print0 + 1)) * redundancy print0 * NDATA X"
    using assms(1) by (simp add: init_pagesize_def sdiv_nonneg)
qed

lemma init_planned:
  assumes ok: "Initializeprinting X cfg m print0 = Inr (print, [])"
    and nd: "0 < NDATA X" and r: "1 \<le> redundancy print0"
  shows "planned X print"
proof -
  note f = init_fields [OF ok] and g = init_guards [OF ok]
  let ?v = "init_nx cfg print0 * (NDOT + 3) * init_dx cfg + init_px cfg + 2 * init_border cfg print0"
  have v0: "0 \<le> ?v"
    using init_dots [of cfg] init_border_nonneg [of cfg print0] g(4) r by (simp add: NDOT_def)
  have "int32 (?v + 3)"
    using g(2) by (simp add: init_size_ints_def)
  then have "?v + 3 < 2 ^ 32"
    by (simp add: int32_def)
  then have w: "?v \<le> init_width cfg print0"
    unfolding init_width_def using v0 by (simp add: round4_ge)
  have q: "1 \<le> (init_nx cfg print0 * init_ny cfg print0 - redundancy print0 - 2)
                div (redundancy print0 + 1)"
    using init_pagesize_floor(2) [OF r g(4) g(5)] r
      pos_imp_zdiv_pos_iff [of "redundancy print0 + 1"
        "init_nx cfg print0 * init_ny cfg print0 - redundancy print0 - 2"]
    by simp
  have p0: "0 \<le> init_pagesize X cfg print0"
    unfolding init_pagesize_floor(1) [OF r g(4) g(5)] using q r nd by simp
  have pu: "uint (word_of_int (init_pagesize X cfg print0) :: uint32) = init_pagesize X cfg print0"
    using p0 g(3) by (simp add: int32_def uint_word_of_int take_bit_int_eq_self)
  show ?thesis
    unfolding planned_def f
    using nd r g(4) g(5) init_dots [of cfg] init_border_nonneg [of cfg print0] w pu g(3)
      init_pagesize_floor(1) [OF r g(4) g(5)]
    by (simp add: int32_def init_height_def)
qed

lemma example_values:
  "init_ppi example_config = (300, 300)"
  "init_dx example_config = 10" "init_dy example_config = 10"
  "init_px example_config = 7" "init_py example_config = 7"
  "init_border example_config example_job = 25"
  "init_nx example_config example_job = 5"
  "init_ny example_config example_job = 9"
  "init_width example_config example_job = 1808"
  "init_height example_config example_job = 3207"
  "init_pagesize example_externals example_config example_job = 2340"
  by (simp_all add: init_ppi_def init_dx_def init_dy_def init_px_def init_py_def init_border_def
      init_nx_def init_ny_def init_width_def init_height_def init_pagesize_def
      raster_def dotsize_def grid_border_def cells_def area_width_def area_height_def NDOT_def
      example_config_def example_job_def example_externals_def)

lemma example_job_fields:
  "redundancy example_job = 2" "outbmp example_job \<noteq> []" "step example_job = 1"
  "extratop example_job = 0" "extrabottom example_job = 0"
  by (simp_all add: example_job_def)

lemma example_config_fields:
  "pb_dpi example_config = 30" "pb_dotpercent example_config = 70"
  by (simp_all add: example_config_def)

lemma example_ints:
  "list_all int32 (init_ints example_config example_job)"
  "list_all int32 (init_size_ints example_config example_job)"
  by (simp_all add: init_ints_def init_size_ints_def example_values example_job_fields int32_def
      area_width_def area_height_def NDOT_def example_config_fields)

lemma example_Initializeprinting:
  "Initializeprinting example_externals example_config True example_job
     = Inr (example_prepared, [])"
  by (simp add: Initializeprinting_def Let_def example_values example_ints init_job_simps
      example_job_fields int32_def example_prepared_def example_config_fields)

text \<open>
  Claim C7. When Initializeprinting succeeds (for a positive NDATA and a redundancy of at
  least 1), the capacity of a page that it stores in the job is
  floor((nx * ny - redundancy - 2) / (redundancy + 1)) * redundancy * NDATA for the cell
  counts nx and ny that it has computed and stored, and the superblock holds the same
  value.
\<close>

theorem Initializeprinting_pagesize:
  assumes "Initializeprinting X cfg malloc_ok print0 = Inr (print, [])"
    and "0 < NDATA X" and "1 \<le> redundancy print0"
  shows "uint (pagesize print)
           = ((nx print * ny print - redundancy print - 2) div (redundancy print + 1))
               * redundancy print * NDATA X
         \<and> spagesize (superdata print) = pagesize print
         \<and> nx print = init_nx cfg print0 \<and> ny print = init_ny cfg print0"
  using init_planned [OF assms] init_fields [OF assms(1)]
  by (simp add: planned_def)

theorem Initializeprinting_pagesize_witness:
  "Initializeprinting example_externals example_config True example_job
     = Inr (example_prepared, [])
   \<and> 0 < NDATA example_externals \<and> 1 \<le> redundancy example_job
   \<and> uint (pagesize example_prepared)
       = ((nx example_prepared * ny example_prepared - redundancy example_prepared - 2)
            div (redundancy example_prepared + 1))
           * redundancy example_prepared * NDATA example_externals
   \<and> uint (pagesize example_prepared) = 2340"
proof -
  have h2: "0 < NDATA example_externals" by (simp add: example_externals_def)
  have h3: "1 \<le> redundancy example_job" by (simp add: example_job_fields)
  have v: "uint (pagesize example_prepared) = 2340" by (simp add: example_prepared_def)
  note c = Initializeprinting_pagesize [OF example_Initializeprinting h2 h3, THEN conjunct1]
  show ?thesis
    by (intro conjI) (fact example_Initializeprinting h2 h3 c v)+
qed

text \<open>
  Claim C6. When Initializeprinting returns, it has reported "Printable area is too
  small" and left the job in the terminal state if and only if the computed cell counts
  satisfy nx < redundancy + 1, or ny < 3, or nx * ny < 2 * redundancy + 2. In that case
  the job has no bitmap buffer, the result does not depend on what malloc would return,
  and the emit phase draws no page.
\<close>

theorem Initializeprinting_too_small:
  assumes "Initializeprinting X cfg malloc_ok print0 = Inr (print, msgs)"
  shows "((''Printable area is too small, reduce borders or block size'' \<in> set msgs
            \<and> terminal print)
          \<longleftrightarrow> (init_nx cfg print0 < redundancy print0 + 1 \<or> init_ny cfg print0 < 3
                \<or> init_nx cfg print0 * init_ny cfg print0 < 2 * redundancy print0 + 2))
         \<and> (''Printable area is too small, reduce borders or block size'' \<in> set msgs
              \<longrightarrow> drawbits print = None
                  \<and> Initializeprinting X cfg (\<not> malloc_ok) print0 = Inr (print, msgs)
                  \<and> emit_phase X f print = Inr (print, []))"
proof -
  let ?first = "init_nx cfg print0 < redundancy print0 + 1 \<or> init_ny cfg print0 < 3"
  let ?third = "init_nx cfg print0 * init_ny cfg print0 < 2 * redundancy print0 + 2"
  let ?msg = "''Printable area is too small, reduce borders or block size''"
  have dz: "pb_dpi cfg \<noteq> 0" and ov: "list_all int32 (init_ints cfg print0)"
    using assms by (auto simp: Initializeprinting_def Let_def split: if_splits)
  have ov2: "list_all int32 [init_nx cfg print0 * init_ny cfg print0, 2 * redundancy print0 + 2]"
    if "\<not> ?first"
    using assms that dz ov
    by (auto simp: Initializeprinting_def Let_def init_job_simps split: if_splits)
  show ?thesis
  proof (cases "?first \<or> ?third")
    case True
    have res: "Initializeprinting X cfg b print0
                      = Inr (Stopprinting (init_job X cfg print0), [?msg])" for b
    proof (cases ?first)
      case True
      then show ?thesis
        using dz ov by (simp add: Initializeprinting_def Let_def init_job_simps)
    next
      case False
      then have "?third" using True by blast
      then show ?thesis
        using False dz ov ov2 [OF False]
        by (simp add: Initializeprinting_def Let_def init_job_simps)
    qed
    have eq: "print = Stopprinting (init_job X cfg print0)" "msgs = [?msg]"
      using assms res [of malloc_ok] by simp_all
    have t: "terminal print" "drawbits print = None"
      by (simp_all add: eq terminal_def Stopprinting_def)
    have e: "emit_phase X f print = Inr (print, [])"
      using t(1) by (subst emit_phase.simps) simp
    show ?thesis
      using True t e res [of "\<not> malloc_ok"] eq by simp
  next
    case False
    then have "?msg \<notin> set msgs"
      using assms dz ov
      by (auto simp: Initializeprinting_def Let_def init_job_simps split: if_splits)
    then show ?thesis
      using False by simp
  qed
qed

lemma coarse_values:
  "pb_dpi coarse_config = 10"
  "init_nx coarse_config example_job = 1"
  "list_all int32 (init_ints coarse_config example_job)"
  by (simp_all add: init_ppi_def init_dx_def init_dy_def init_px_def init_py_def init_border_def
      init_nx_def init_ny_def init_ints_def int32_def
      raster_def dotsize_def grid_border_def cells_def area_width_def area_height_def NDOT_def
      coarse_config_def example_job_def)

lemma coarse_Initializeprinting:
  "Initializeprinting example_externals coarse_config True example_job
     = Inr (Stopprinting (init_job example_externals coarse_config example_job),
            [''Printable area is too small, reduce borders or block size''])"
  by (simp add: Initializeprinting_def Let_def coarse_values init_job_simps example_job_fields)

theorem Initializeprinting_too_small_witness:
  "Initializeprinting example_externals coarse_config True example_job
     = Inr (Stopprinting (init_job example_externals coarse_config example_job),
            [''Printable area is too small, reduce borders or block size''])
   \<and> init_nx coarse_config example_job < redundancy example_job + 1
   \<and> drawbits (Stopprinting (init_job example_externals coarse_config example_job)) = None
   \<and> emit_phase example_externals (\<lambda>n. \<lparr>fopen_ok = True, header_written = True,
          info_written = True, bits_written = True\<rparr>)
         (Stopprinting (init_job example_externals coarse_config example_job))
       = Inr (Stopprinting (init_job example_externals coarse_config example_job), [])"
proof -
  have s: "init_nx coarse_config example_job < redundancy example_job + 1"
    by (simp add: coarse_values example_job_fields)
  have m: "''Printable area is too small, reduce borders or block size''
             \<in> set [''Printable area is too small, reduce borders or block size'']"
    by simp
  note T = Initializeprinting_too_small [OF coarse_Initializeprinting, THEN conjunct2, rule_format, OF m]
  show ?thesis
    using coarse_Initializeprinting s T by blast
qed

lemma length_strncpy: "length (strncpy src n) = n"
  by (simp add: strncpy_def)

lemma name_store_zero_at_size:
  "length (sname sd) = i \<Longrightarrow> name_store_zero sd i = sd\<lparr>scrc := scrc sd AND 0xFF00\<rparr>"
  by (simp add: name_store_zero_def)

lemma init_superdata_name:
  "sname (init_superdata X print)
     = strncpy (let (flags, nam, ext) = fnsplit X (infile print)
                in if flags AND EXTENSION X \<noteq> 0 then fnmerge X nam ext else fnmerge X nam [])
         (NAMESIZE X)"
  "scrc (init_superdata X print) = scrc (superdata print) AND 0xFF00"
proof -
  obtain flags nam ext where sp: "fnsplit X (infile print) = (flags, nam, ext)"
    by (cases "fnsplit X (infile print)") auto
  show "sname (init_superdata X print)
     = strncpy (let (flags, nam, ext) = fnsplit X (infile print)
                in if flags AND EXTENSION X \<noteq> 0 then fnmerge X nam ext else fnmerge X nam [])
         (NAMESIZE X)"
    by (simp add: init_superdata_def Let_def sp name_store_zero_at_size length_strncpy)
  show "scrc (init_superdata X print) = scrc (superdata print) AND 0xFF00"
    by (simp add: init_superdata_def Let_def sp name_store_zero_at_size length_strncpy)
qed

text \<open>
  Claim C4, on the code: the name field should end in a zero byte inside its own
  bytes, and filling it should not touch the fields behind it. For a file name of 70
  characters the 63 bytes of the name hold no zero byte, and the zero byte of line 31
  lands in the low byte of the checksum field behind the name.
\<close>

theorem name_terminator_outside_field:
  "sname (init_superdata example_externals long_name_job) = replicate 63 0x61
   \<and> 0 \<notin> set (sname (init_superdata example_externals long_name_job))
   \<and> scrc (superdata long_name_job) = 0xABCD
   \<and> scrc (init_superdata example_externals long_name_job) = 0xAB00"
proof -
  have n: "sname (init_superdata example_externals long_name_job) = replicate 63 0x61"
    unfolding init_superdata_name
    by (simp add: example_externals_def long_name_job_def strncpy_def)
  have c: "scrc (superdata long_name_job) = 0xABCD"
    by (simp add: long_name_job_def example_job_def example_superdata_def)
  have c': "scrc (init_superdata example_externals long_name_job) = 0xAB00"
    unfolding init_superdata_name c by simp
  show ?thesis
    unfolding n using c c' by simp
qed

text \<open>
  Claim C5, on the code: every error should be reported and leave the job in the
  terminal state. When malloc fails the error is reported and the job is not stopped;
  when the first write to the bitmap file is short nothing is reported and the job goes
  on to the next page.
\<close>

theorem failure_paths_without_stop:
  "Initializeprinting example_externals example_config False example_job
     = Inr ((init_job example_externals example_config example_job)\<lparr>drawbits := None\<rparr>,
            [''Low memory, can't create bitmap''])
   \<and> \<not> terminal ((init_job example_externals example_config example_job)\<lparr>drawbits := None\<rparr>)
   \<and> save_bitmap \<lparr>fopen_ok = True, header_written = False, info_written = True,
                   bits_written = True\<rparr> example_prepared
       = (example_prepared\<lparr>frompage := frompage example_prepared + 1\<rparr>, [])
   \<and> \<not> terminal (example_prepared\<lparr>frompage := frompage example_prepared + 1\<rparr>)"
proof -
  have a: "Initializeprinting example_externals example_config False example_job
     = Inr ((init_job example_externals example_config example_job)\<lparr>drawbits := None\<rparr>,
            [''Low memory, can't create bitmap''])"
    by (simp add: Initializeprinting_def Let_def example_values example_ints init_job_simps
      example_job_fields int32_def example_config_fields)
  have b: "\<not> terminal ((init_job example_externals example_config example_job)\<lparr>drawbits := None\<rparr>)"
    by (simp add: terminal_def init_job_simps example_job_fields)
  have c: "save_bitmap \<lparr>fopen_ok = True, header_written = False, info_written = True,
                   bits_written = True\<rparr> example_prepared
       = (example_prepared\<lparr>frompage := frompage example_prepared + 1\<rparr>, [])"
    by (simp add: save_bitmap_def)
  have d: "\<not> terminal (example_prepared\<lparr>frompage := frompage example_prepared + 1\<rparr>)"
    by (simp add: terminal_def example_prepared_def)
  show ?thesis
    using a b c d by blast
qed

section \<open>Cells of a page\<close>

lemma rotation_bounds:
  assumes "0 < nx'" "0 \<le> ns"
  shows "0 \<le> rotation nx' r ns j" "rotation nx' r ns j < ns + 1"
proof -
  show "0 \<le> rotation nx' r ns j"
    using assms by (simp add: rotation_def)
  have "x mod nx' < ns + 1" if "nx' \<le> ns + 1" for x
    using pos_mod_bound [OF assms(1), of x] that by linarith
  then show "rotation nx' r ns j < ns + 1"
    using assms by (simp add: rotation_def)
qed

lemma super_cell_rotation:
  assumes "0 < nx'" "0 \<le> r" "0 \<le> ns" "0 \<le> j"
  shows "super_cell nx' r ns j = j * (ns + 1) + rotation nx' r ns j"
proof -
  have k: "0 \<le> j * (ns + 1)" using assms by simp
  have m: "(j * (ns + 1)) smod nx' = (j * (ns + 1)) mod nx'"
    using k assms(1) by (simp add: smod_nonneg)
  have d: "nx' sdiv (r + 1) = nx' div (r + 1)"
    using assms by (simp add: sdiv_nonneg)
  have "0 \<le> nx' div (r + 1) * j"
    using assms by (simp add: pos_imp_zdiv_nonneg_iff)
  moreover have "(j * (ns + 1)) mod nx' < nx'"
    using assms(1) by simp
  ultimately have p: "0 \<le> nx' div (r + 1) * j - (j * (ns + 1)) mod nx' + nx'"
    by linarith
  show ?thesis
    using p assms(1) by (simp add: super_cell_def rotation_def Let_def m d smod_nonneg)
qed

lemma data_cell_rotation:
  assumes "0 < nx'" "0 \<le> r" "0 \<le> ns" "0 \<le> j" "0 \<le> i" "i < ns"
  shows "data_cell nx' r ns i j = j * (ns + 1) + (i + 1 + rotation nx' r ns j) mod (ns + 1)"
proof -
  have k: "0 \<le> j * (ns + 1)" using assms by simp
  have m: "(j * (ns + 1)) smod nx' = (j * (ns + 1)) mod nx'"
    using k assms(1) by (simp add: smod_nonneg)
  have d: "nx' sdiv (r + 1) = nx' div (r + 1)"
    using assms by (simp add: sdiv_nonneg)
  have "0 \<le> nx' div (r + 1) * j"
    using assms by (simp add: pos_imp_zdiv_nonneg_iff)
  moreover have "(j * (ns + 1)) mod nx' < nx'"
    using assms(1) by simp
  ultimately have p: "0 \<le> nx' div (r + 1) * j - (j * (ns + 1)) mod nx' + nx'"
    by linarith
  have q: "0 \<le> rotation nx' r ns j"
    using rotation_bounds(1) [OF assms(1) assms(3)] .
  show ?thesis
  proof (cases "ns + 1 < nx'")
    case True
    then show ?thesis
      using assms by (simp add: data_cell_def rotation_def Let_def)
  next
    case False
    have "data_cell nx' r ns i j
            = j * (ns + 1) + (i + 1 + rotation nx' r ns j) smod (ns + 1)"
      using False p assms(1) by (simp add: data_cell_def rotation_def Let_def m d smod_nonneg)
    then show ?thesis
      using q assms by (simp add: smod_nonneg)
  qed
qed

lemma parity_cell_data_cell: "parity_cell nx' r ns i = data_cell nx' r ns i r"
  by (simp add: parity_cell_def data_cell_def)

lemma cell_cover:
  assumes nx: "0 < nx'" and r: "0 \<le> r" and ns: "0 \<le> ns"
    and c: "0 \<le> c" "c < (r + 1) * (ns + 1)"
  shows "c \<in> super_cell nx' r ns ` {0..r}
           \<union> (\<Union>i\<in>{0..ns - 1}. data_cell nx' r ns i ` {0..r})"
proof -
  define N where "N = ns + 1"
  define j where "j = c div N"
  define off where "off = c mod N"
  define t where "t = rotation nx' r ns j"
  have N: "0 < N" using ns by (simp add: N_def)
  have j0: "0 \<le> j" using c(1) N by (simp add: j_def pos_imp_zdiv_nonneg_iff)
  have cN: "c < (r + 1) * N" using c(2) by (simp add: N_def)
  have jr: "j \<le> r"
  proof (rule ccontr)
    assume "\<not> j \<le> r"
    then have "r + 1 \<le> j" by simp
    then have "(r + 1) * N \<le> j * N"
      using N by (intro mult_right_mono) auto
    moreover have "j * N \<le> c"
      using pos_mod_sign [OF N, of c]
      by (simp add: j_def minus_mod_eq_div_mult [symmetric])
    ultimately show False using cN by simp
  qed
  have off: "0 \<le> off" "off < N" using N by (simp_all add: off_def)
  have ceq: "c = j * N + off" by (simp add: j_def off_def)
  have t: "0 \<le> t" "t < N"
    using rotation_bounds [OF nx ns, of r j] by (simp_all add: t_def N_def)
  show ?thesis
  proof (cases "off = t")
    case True
    then have "c = super_cell nx' r ns j"
      using super_cell_rotation [OF nx r ns j0] ceq by (simp add: t_def N_def)
    then show ?thesis using j0 jr by auto
  next
    case False
    define i where "i = (off - 1 - t) mod N"
    have i: "0 \<le> i" "i < N" using N by (simp_all add: i_def)
    have bk: "(i + 1 + t) mod N = off"
    proof -
      have "(i + 1 + t) mod N = ((off - 1 - t) mod N + (1 + t)) mod N"
        by (simp add: i_def add.assoc)
      also have "\<dots> = ((off - 1 - t) + (1 + t)) mod N"
        by (rule mod_add_left_eq)
      also have "\<dots> = off"
        using off by simp
      finally show ?thesis .
    qed
    have "i \<noteq> N - 1"
    proof
      assume "i = N - 1"
      then have "(i + 1 + t) mod N = t" using t by simp
      then show False using bk False by simp
    qed
    then have ins: "i < ns" using i by (simp add: N_def)
    have "c = data_cell nx' r ns i j"
      using data_cell_rotation [OF nx r ns j0 i(1) ins] ceq bk by (simp add: t_def N_def)
    moreover have "i \<in> {0..ns - 1}" "j \<in> {0..r}"
      using j0 jr i(1) ins by auto
    ultimately show ?thesis by blast
  qed
qed

lemma sint_small:
  fixes w :: uint32
  assumes "uint w < 2 ^ 31"
  shows "sint w = uint w"
proof -
  have "- (2 ^ 31) \<le> uint w" by (rule order_trans [of _ 0]) simp_all
  then show ?thesis
    using assms by (simp add: sint_uint signed_take_bit_int_eq_self)
qed

lemma uint_min_le: "uint (min a b) \<le> uint (b :: uint32)"
  by (simp add: word_le_def [symmetric])

lemma cell_draw_at: "cell (draw_at X p k b) = k"
  by (simp add: draw_at_def Drawblock_def)

lemma group_loop_cells:
  "map cell (fst (group_loop n X p i j off ck))
     = map (data_cell (nx p) (redundancy p) (page_nstring X p) i) [j..j + int n - 1]"
proof (induction n arbitrary: j off ck)
  case 0
  then show ?case by simp
next
  case (Suc n)
  have u: "[j..j + int (Suc n) - 1] = j # [j + 1..j + 1 + int n - 1]"
    using upto_rec1 [of j "j + int n"] by (simp add: add.commute add.left_commute)
  show ?case
    unfolding u using Suc.IH [of "j + 1"]
    by (simp add: Let_def cell_draw_at split: prod.splits)
      (metis fst_conv)
qed

lemma strings_loop_cells:
  assumes "0 \<le> redundancy p"
  shows "map (map cell) (strings_loop n X p i off)
     = map (\<lambda>i. map (data_cell (nx p) (redundancy p) (page_nstring X p) i) [0..redundancy p])
         [i..i + int n - 1]"
proof (induction n arbitrary: i off)
  case 0
  then show ?case by simp
next
  case (Suc n)
  have u: "[i..i + int (Suc n) - 1] = i # [i + 1..i + 1 + int n - 1]"
    using upto_rec1 [of i "i + int n"] by (simp add: add.commute add.left_commute)
  obtain ds off' ck' where g: "group_loop (nat (redundancy p)) X p i 0 off
       \<lparr>addr = off XOR word_of_int (push_bit 28 (redundancy p)),
          data = replicate (nat (NDATA X)) 0xFF, crc = 0, ecc = []\<rparr> = (ds, off', ck')"
    by (metis prod_cases3)
  have ds: "map cell ds
     = map (data_cell (nx p) (redundancy p) (page_nstring X p) i) [0..redundancy p - 1]"
    using group_loop_cells [of "nat (redundancy p)" X p i 0 off
       "\<lparr>addr = off XOR word_of_int (push_bit 28 (redundancy p)),
          data = replicate (nat (NDATA X)) 0xFF, crc = 0, ecc = []\<rparr>"] assms
    by (simp add: g)
  have r: "[0..redundancy p] = [0..redundancy p - 1] @ [redundancy p]"
    using assms by (rule upto_rec2)
  show ?case
    unfolding u using Suc.IH [of "i + 1" off']
    by (simp add: Let_def g ds cell_draw_at parity_cell_data_cell r)
qed

lemma draw_page_cells:
  assumes "0 \<le> redundancy p"
  shows "map cell (page_draws (draw_page X p))
     = map (super_cell (nx p) (redundancy p) (page_nstring X p)) [0..redundancy p]
       @ concat (map (\<lambda>i. map (data_cell (nx p) (redundancy p) (page_nstring X p) i)
                              [0..redundancy p]) [0..page_nstring X p - 1])
       @ [(page_nstring X p + 1) * (redundancy p + 1)..nx p * page_ny X p - 1]"
proof -
  have n: "0 + int (nat (page_nstring X p)) - 1 = page_nstring X p - 1
           \<or> [0..0 + int (nat (page_nstring X p)) - 1] = [0..page_nstring X p - 1]"
    by (cases "0 \<le> page_nstring X p") auto
  then have n': "[0..0 + int (nat (page_nstring X p)) - 1] = [0..page_nstring X p - 1]"
    by auto
  show ?thesis
    by (simp add: page_draws_def draw_page_def Let_def map_concat o_def cell_draw_at
        strings_loop_cells [OF assms, of _ X 0] n')
qed

lemma page_nstring_bounds:
  assumes "planned X p"
  shows "0 \<le> page_nstring X p"
    and "page_nstring X p
           \<le> (nx p * ny p - redundancy p - 2) div (redundancy p + 1)"
proof -
  define q where "q = (nx p * ny p - redundancy p - 2) div (redundancy p + 1)"
  define l where "l = sint (min (alignedsize p - page_offset p) (pagesize p))"
  define n where "n = (l + NDATA X - 1) sdiv NDATA X"
  have nd: "0 < NDATA X" and r: "1 \<le> redundancy p"
    and ps: "uint (pagesize p) = q * redundancy p * NDATA X" "uint (pagesize p) < 2 ^ 31"
    using assms by (simp_all add: planned_def q_def)
  have u: "uint (min (alignedsize p - page_offset p) (pagesize p)) \<le> uint (pagesize p)"
    by (rule uint_min_le)
  then have "l = uint (min (alignedsize p - page_offset p) (pagesize p))"
    unfolding l_def using ps(2) by (intro sint_small) linarith
  then have l: "0 \<le> l" "l \<le> q * redundancy p * NDATA X"
    using u ps(1) by simp_all
  have n_div: "n = (l + NDATA X - 1) div NDATA X"
    unfolding n_def using l(1) nd by (intro sdiv_nonneg) linarith+
  have n0: "0 \<le> n"
    unfolding n_div using l(1) nd by (intro pos_imp_zdiv_nonneg_iff [THEN iffD2]) linarith+
  have "n \<le> (q * redundancy p * NDATA X + (NDATA X - 1)) div NDATA X"
    unfolding n_div using l(2) nd by (intro zdiv_mono1) linarith+
  also have "\<dots> = q * redundancy p"
    using nd by simp
  finally have n1: "n \<le> q * redundancy p" .
  have ns: "page_nstring X p = (n + redundancy p - 1) div redundancy p"
    unfolding page_nstring_def Let_def l_def [symmetric] n_def [symmetric]
    using n0 r by (intro sdiv_nonneg) linarith+
  show "0 \<le> page_nstring X p"
    unfolding ns using n0 r by (intro pos_imp_zdiv_nonneg_iff [THEN iffD2]) linarith+
  have "page_nstring X p \<le> (q * redundancy p + (redundancy p - 1)) div redundancy p"
    unfolding ns using n1 r by (intro zdiv_mono1) linarith+
  also have "\<dots> = q"
    using r by simp
  finally show "page_nstring X p \<le> (nx p * ny p - redundancy p - 2) div (redundancy p + 1)"
    by (simp add: q_def)
qed

lemma page_ny_bounds:
  assumes "planned X p"
  shows "3 \<le> page_ny X p" and "page_ny X p \<le> ny p"
    and "(page_nstring X p + 1) * (redundancy p + 1) + 1 \<le> nx p * page_ny X p"
proof -
  define ns where "ns = page_nstring X p"
  define q where "q = (nx p * ny p - redundancy p - 2) div (redundancy p + 1)"
  define n1 where "n1 = (ns + 1) * (redundancy p + 1) + 1"
  define n2 where "n2 = max ((n1 + nx p - 1) sdiv nx p) 3"
  have r: "1 \<le> redundancy p" and x: "redundancy p + 1 \<le> nx p" and y: "3 \<le> ny p"
    using assms by (simp_all add: planned_def)
  have ns0: "0 \<le> ns" and nsq: "ns \<le> q"
    using page_nstring_bounds [OF assms] by (simp_all add: ns_def q_def)
  have n10: "0 \<le> n1"
    using ns0 r by (simp add: n1_def)
  have pny: "page_ny X p = (if ny p > n2 then n2 else ny p)"
    by (simp add: page_ny_def Let_def n2_def n1_def ns_def)
  show "3 \<le> page_ny X p" "page_ny X p \<le> ny p"
    using y by (simp_all add: pny n2_def)
  have d: "(n1 + nx p - 1) sdiv nx p = (n1 + nx p - 1) div nx p"
    using n10 x r by (intro sdiv_nonneg) linarith+
  show "(page_nstring X p + 1) * (redundancy p + 1) + 1 \<le> nx p * page_ny X p"
  proof (cases "ny p > n2")
    case True
    have "(n1 + nx p - 1) mod nx p \<le> nx p - 1"
      using pos_mod_bound [of "nx p" "n1 + nx p - 1"] x r by linarith
    then have "n1 \<le> nx p * ((n1 + nx p - 1) div nx p)"
      using minus_mod_eq_mult_div [of "n1 + nx p - 1" "nx p"] by linarith
    also have "\<dots> \<le> nx p * n2"
      using x r by (intro mult_left_mono) (simp_all add: n2_def d)
    finally show ?thesis
      using True by (simp add: pny n1_def ns_def)
  next
    case False
    have "q * (redundancy p + 1) \<le> nx p * ny p - redundancy p - 2"
      using pos_mod_sign [of "redundancy p + 1" "nx p * ny p - redundancy p - 2"] r
        minus_mod_eq_div_mult [of "nx p * ny p - redundancy p - 2" "redundancy p + 1"]
      unfolding q_def by linarith
    moreover have "(ns + 1) * (redundancy p + 1) \<le> (q + 1) * (redundancy p + 1)"
      using nsq r by (intro mult_right_mono) linarith+
    ultimately have "(ns + 1) * (redundancy p + 1) + 1 \<le> nx p * ny p"
      by (simp add: algebra_simps)
    then show ?thesis
      using False by (simp add: pny ns_def)
  qed
qed

lemma length_concat_const:
  "(\<And>x. x \<in> set xs \<Longrightarrow> length (f x) = c) \<Longrightarrow> length (concat (map f xs)) = length xs * c"
  by (induction xs) auto

lemma draw_page_cells_all:
  assumes pl: "planned X p"
  shows "distinct (map cell (page_draws (draw_page X p)))
         \<and> set (map cell (page_draws (draw_page X p))) = {0..nx p * page_ny X p - 1}"
proof -
  define r where "r = redundancy p"
  define ns where "ns = page_nstring X p"
  define M where "M = nx p * page_ny X p"
  define A where "A = map (super_cell (nx p) r ns) [0..r]"
  define B where "B = concat (map (\<lambda>i. map (data_cell (nx p) r ns i) [0..r]) [0..ns - 1])"
  define C where "C = [(ns + 1) * (r + 1)..M - 1]"
  define cs where "cs = map cell (page_draws (draw_page X p))"
  have r: "1 \<le> r" and x: "0 < nx p"
    using pl by (simp_all add: planned_def r_def)
  have ns0: "0 \<le> ns"
    using page_nstring_bounds(1) [OF pl] by (simp add: ns_def)
  have RM: "(ns + 1) * (r + 1) + 1 \<le> M"
    using page_ny_bounds(3) [OF pl] by (simp add: ns_def r_def M_def)
  have R0: "0 \<le> (ns + 1) * (r + 1)"
    using ns0 r by simp
  have cs: "cs = A @ B @ C"
    unfolding cs_def A_def B_def C_def r_def ns_def M_def
    using r by (intro draw_page_cells) (simp add: r_def)
  have lA: "length A = nat (r + 1)"
    by (simp add: A_def)
  have lB: "length B = nat ns * nat (r + 1)"
    unfolding B_def by (subst length_concat_const [where c = "nat (r + 1)"]) simp_all
  have lC: "length C = nat (M - (ns + 1) * (r + 1))"
    by (simp add: C_def)
  have "nat (r + 1) + nat ns * nat (r + 1) = nat ((ns + 1) * (r + 1))"
    using ns0 r by (simp add: nat_mult_distrib nat_add_distrib algebra_simps)
  then have len: "length cs = nat M"
    using RM R0 by (simp add: cs lA lB lC nat_add_distrib [symmetric] del: nat_add_distrib)
  have sub: "{0..M - 1} \<subseteq> set cs"
  proof
    fix c assume c: "c \<in> {0..M - 1}"
    show "c \<in> set cs"
    proof (cases "c < (r + 1) * (ns + 1)")
      case True
      have "c \<in> super_cell (nx p) r ns ` {0..r}
               \<union> (\<Union>i\<in>{0..ns - 1}. data_cell (nx p) r ns i ` {0..r})"
        using c True r ns0 by (intro cell_cover [OF x]) auto
      then have "c \<in> set A \<union> set B"
        by (auto simp: A_def B_def)
      then show ?thesis by (auto simp: cs)
    next
      case False
      then have "c \<in> set C"
        using c by (simp add: C_def mult.commute)
      then show ?thesis by (simp add: cs)
    qed
  qed
  have cardM: "card {0..M - 1} = nat M"
    by simp
  have "card (set cs) \<le> card {0..M - 1}"
    using card_length [of cs] by (simp add: len)
  then have eq: "{0..M - 1} = set cs"
    using sub by (intro card_seteq) auto
  then have "card (set cs) = length cs"
    using cardM by (simp add: len)
  then have "distinct cs"
    by (rule card_distinct)
  then show ?thesis
    using eq by (simp add: cs_def M_def)
qed

lemma page_superdata_simps:
  "page_offset (p\<lparr>superdata := s\<rparr>) = page_offset p"
  "page_nstring X (p\<lparr>superdata := s\<rparr>) = page_nstring X p"
  "page_ny X (p\<lparr>superdata := s\<rparr>) = page_ny X p"
  "page_height X (p\<lparr>superdata := s\<rparr>) = page_height X p"
  "planned X (p\<lparr>superdata := s\<rparr>) = planned X p"
  by (simp_all add: page_offset_def page_nstring_def page_ny_def page_height_def planned_def)

lemma Printnextpage_drawing:
  assumes "Printnextpage X f print = Inr (print', eff)" and "drawing eff = Some pg"
  shows "pg = draw_page X (print\<lparr>superdata :=
                (superdata print)\<lparr>spage := word_of_int (frompage print + 1)\<rparr>\<rparr>)"
    and "page_offset print < datasize print" and "frompage print \<le> topage print"
    and "pagesize print \<noteq> 0"
  using assms
  by (auto simp: Printnextpage_def Let_def split: if_splits prod.splits)

lemma save_bitmap_cases:
  assumes "save_bitmap f q = (q', msgs)"
  shows "(msgs = [] \<and> q' = q\<lparr>frompage := frompage q + 1\<rparr>) \<or> (msgs \<noteq> [] \<and> q' = Stopprinting q)"
  using assms by (auto simp: save_bitmap_def Let_def split: if_splits)

lemma Printnextpage_saved:
  assumes "Printnextpage X f print = Inr (print', eff)" and "drawing eff = Some pg"
  shows "save_bitmap f
           (print\<lparr>superdata := superdata_drawn X
              ((superdata print)\<lparr>spage := word_of_int (frompage print + 1)\<rparr>)\<rparr>)
         = (print', reported eff)"
  using assms
  by (auto simp: Printnextpage_def Let_def split: if_splits prod.splits)

lemma Printnextpage_printed:
  assumes "Printnextpage X f print = Inr (print', eff)" and "drawing eff = Some pg"
    and "reported eff = []"
  shows "\<exists>s. print' = print\<lparr>superdata := s, frompage := frompage print + 1\<rparr>"
proof -
  let ?s = "superdata_drawn X ((superdata print)\<lparr>spage := word_of_int (frompage print + 1)\<rparr>)"
  have "print' = (print\<lparr>superdata := ?s\<rparr>)\<lparr>frompage := frompage (print\<lparr>superdata := ?s\<rparr>) + 1\<rparr>"
    using save_bitmap_cases [OF Printnextpage_saved [OF assms(1,2)]] assms(3) by simp
  then have "print' = print\<lparr>superdata := ?s, frompage := frompage print + 1\<rparr>"
    by simp
  then show ?thesis ..
qed

lemma planned_next:
  "planned X p \<Longrightarrow> planned X (p\<lparr>superdata := s, frompage := frompage p + 1\<rparr>)"
  by (simp add: planned_def)

lemma emit_reach_planned: "emit_reach X cfg print \<Longrightarrow> planned X print"
proof (induction rule: emit_reach.induct)
  case (prepared malloc_ok print0 print)
  then show ?case by (intro init_planned)
next
  case (printed print f print' eff pg)
  then show ?case
    using Printnextpage_printed [of X f print print' eff pg] planned_next by auto
qed

text \<open>
  Claim C2. For every page that Printnextpage draws in a job prepared by
  Initializeprinting, the cells given to Drawblock, for the superblocks that head the
  strings, the data blocks, the redundancy blocks and the superblocks that fill the
  rest, are pairwise distinct and form the set {0, ..., nx * ny - 1}, where ny is the
  number of rows of this page (the reduced one on a short last page).
\<close>

theorem Printnextpage_cells:
  assumes "emit_reach X cfg print"
    and "Printnextpage X f print = Inr (print', eff)" and "drawing eff = Some pg"
  shows "distinct (map cell (page_draws pg))
         \<and> set (map cell (page_draws pg)) = {0..nx print * page_ny X print - 1}"
proof -
  let ?p = "print\<lparr>superdata := (superdata print)\<lparr>spage := word_of_int (frompage print + 1)\<rparr>\<rparr>"
  have "planned X ?p"
    using emit_reach_planned [OF assms(1)] by (simp add: page_superdata_simps)
  from draw_page_cells_all [OF this] show ?thesis
    by (simp add: Printnextpage_drawing(1) [OF assms(2,3)] page_superdata_simps)
qed

section \<open>The first page of the example job\<close>

lemma Printnextpage_emit:
  assumes "page_offset print < datasize print" "frompage print \<le> topage print"
    and "pagesize print \<noteq> 0" "NDATA X \<noteq> 0" "redundancy print \<noteq> 0" "nx print \<noteq> 0"
    and "redundancy print + 1 \<noteq> 0"
  shows "Printnextpage X f print =
    (let p1 = print\<lparr>superdata := (superdata print)\<lparr>spage := word_of_int (frompage print + 1)\<rparr>\<rparr>;
         q = p1\<lparr>superdata := superdata_drawn X (superdata p1)\<rparr>
     in Inr (fst (save_bitmap f q),
             \<lparr>reported = snd (save_bitmap f q), drawing = Some (draw_page X p1)\<rparr>))"
  using assms
  by (simp add: Printnextpage_def Let_def split: prod.splits)

lemma example_prepared_fields:
  "nx example_prepared = 5" "ny example_prepared = 9" "redundancy example_prepared = 2"
  "pagesize example_prepared = 2340" "frompage example_prepared = 0"
  "topage example_prepared = 9999" "datasize example_prepared = 1080"
  "alignedsize example_prepared = 1080" "step example_prepared = 2"
  "dx example_prepared = 10" "dy example_prepared = 10" "px example_prepared = 7"
  "py example_prepared = 7" "border example_prepared = 25" "width example_prepared = 1808"
  "height example_prepared = 3207" "drawbits example_prepared = Some (1808 * 3207)"
  by (simp_all add: example_prepared_def init_job_simps example_job_fields example_values)
    (simp_all add: example_job_def)

lemma example_page_values:
  "page_offset example_prepared = 0"
  "page_nstring example_externals example_prepared = 6"
  "page_ny example_externals example_prepared = 5"
  "page_height example_externals example_prepared = 1807"
proof -
  show o: "page_offset example_prepared = 0"
    by (simp add: page_offset_def example_prepared_fields)
  show n: "page_nstring example_externals example_prepared = 6"
    by (simp add: page_nstring_def o example_prepared_fields example_externals_def)
  show y: "page_ny example_externals example_prepared = 5"
    by (simp add: page_ny_def n example_prepared_fields)
  show "page_height example_externals example_prepared = 1807"
    by (simp add: page_height_def y example_prepared_fields NDOT_def)
qed

lemma example_Printnextpage:
  "Printnextpage example_externals all_written example_prepared
     = Inr (example_next, \<lparr>reported = [], drawing = Some example_page\<rparr>)"
proof -
  have s: "save_bitmap all_written q = (q\<lparr>frompage := frompage q + 1\<rparr>, [])" for q
    by (simp add: save_bitmap_def all_written_def)
  have e: "NDATA example_externals \<noteq> 0"
    by (simp add: example_externals_def)
  show ?thesis
    by (subst Printnextpage_emit)
      (simp_all add: example_page_values example_prepared_fields e s Let_def
        example_next_def example_page_def example_stamped_def)
qed

lemma example_reach: "emit_reach example_externals example_config example_prepared"
  by (rule emit_reach.prepared [OF example_Initializeprinting])
    (simp_all add: example_externals_def example_job_fields)

theorem Printnextpage_cells_witness:
  "emit_reach example_externals example_config example_prepared
   \<and> Printnextpage example_externals all_written example_prepared
       = Inr (example_next, \<lparr>reported = [], drawing = Some example_page\<rparr>)
   \<and> drawing \<lparr>reported = [], drawing = Some example_page\<rparr> = Some example_page
   \<and> distinct (map cell (page_draws example_page))
   \<and> set (map cell (page_draws example_page)) = {0..24}"
proof -
  have d: "drawing \<lparr>reported = [], drawing = Some example_page\<rparr> = Some example_page"
    by simp
  note T = Printnextpage_cells [OF example_reach example_Printnextpage d]
  have "nx example_prepared * page_ny example_externals example_prepared - 1 = 24"
    by (simp add: example_prepared_fields example_page_values)
  then show ?thesis
    using T example_reach example_Printnextpage d by simp
qed

section \<open>Pixel stores of Drawblock\<close>

lemma dot_stores_mem:
  assumes "off \<in> set (dot_stores at w ppx ppy)"
  shows "\<exists>m n. 0 \<le> m \<and> m < ppy \<and> 0 \<le> n \<and> n < ppx \<and> off = at - m * w + n"
proof -
  from assms obtain m n where "m < nat ppy" "n < nat ppx" "off = at - int m * w + int n"
    by (auto simp: dot_stores_def)
  then have "0 \<le> int m \<and> int m < ppy \<and> 0 \<le> int n \<and> int n < ppx
             \<and> off = at - int m * w + int n"
    by auto
  then show ?thesis by blast
qed

lemma dots_row_mem:
  "off \<in> set (dots_row k t x bits w ddx ppx ppy) \<Longrightarrow>
   \<exists>i m n. 0 \<le> i \<and> i < int k \<and> 0 \<le> m \<and> m < ppy \<and> 0 \<le> n \<and> n < ppx
           \<and> off = bits + (x + i * ddx) - m * w + n"
proof (induction k arbitrary: t x)
  case 0
  then show ?case by simp
next
  case (Suc k)
  from Suc.prems consider
      (here) "off \<in> set (dot_stores (bits + x) w ppx ppy)"
    | (later) "off \<in> set (dots_row k (drop_bit 1 t) (x + ddx) bits w ddx ppx ppy)"
    by (auto split: if_splits)
  then show ?case
  proof cases
    case here
    from dot_stores_mem [OF here] obtain m n where
      "0 \<le> m" "m < ppy" "0 \<le> n" "n < ppx" "off = bits + x - m * w + n"
      by blast
    then have "0 \<le> (0::int) \<and> 0 < int (Suc k) \<and> 0 \<le> m \<and> m < ppy \<and> 0 \<le> n \<and> n < ppx
               \<and> off = bits + (x + 0 * ddx) - m * w + n"
      by simp
    then show ?thesis by blast
  next
    case later
    from Suc.IH [OF later] obtain i m n where
      "0 \<le> i" "i < int k" "0 \<le> m" "m < ppy" "0 \<le> n" "n < ppx"
      "off = bits + (x + ddx + i * ddx) - m * w + n"
      by blast
    then have "0 \<le> i + 1 \<and> i + 1 < int (Suc k) \<and> 0 \<le> m \<and> m < ppy \<and> 0 \<le> n \<and> n < ppx
               \<and> off = bits + (x + (i + 1) * ddx) - m * w + n"
      by (simp add: algebra_simps)
    then show ?thesis by blast
  qed
qed

lemma dots_rows_mem:
  "off \<in> set (dots_rows k j b bits w ddx ddy ppx ppy) \<Longrightarrow>
   \<exists>jj i m n. 0 \<le> jj \<and> jj < int k \<and> 0 \<le> i \<and> i < 32 \<and> 0 \<le> m \<and> m < ppy \<and> 0 \<le> n \<and> n < ppx
           \<and> off = bits - jj * ddy * w + i * ddx - m * w + n"
proof (induction k arbitrary: j bits)
  case 0
  then show ?case by simp
next
  case (Suc k)
  from Suc.prems consider
      (here) t where "off \<in> set (dots_row 32 t 0 bits w ddx ppx ppy)"
    | (later) "off \<in> set (dots_rows k (Suc j) b (bits - ddy * w) w ddx ddy ppx ppy)"
    by (auto simp: Let_def split: if_splits)
  then show ?case
  proof cases
    case here
    from dots_row_mem [OF here] obtain i m n where
      "0 \<le> i" "i < 32" "0 \<le> m" "m < ppy" "0 \<le> n" "n < ppx"
      "off = bits + (0 + i * ddx) - m * w + n"
      by auto
    then have "0 \<le> (0::int) \<and> 0 < int (Suc k) \<and> 0 \<le> i \<and> i < 32 \<and> 0 \<le> m \<and> m < ppy
               \<and> 0 \<le> n \<and> n < ppx \<and> off = bits - 0 * ddy * w + i * ddx - m * w + n"
      by simp
    then show ?thesis by blast
  next
    case later
    from Suc.IH [OF later] obtain jj i m n where
      "0 \<le> jj" "jj < int k" "0 \<le> i" "i < 32" "0 \<le> m" "m < ppy" "0 \<le> n" "n < ppx"
      "off = bits - ddy * w - jj * ddy * w + i * ddx - m * w + n"
      by blast
    then have "0 \<le> jj + 1 \<and> jj + 1 < int (Suc k) \<and> 0 \<le> i \<and> i < 32 \<and> 0 \<le> m \<and> m < ppy
               \<and> 0 \<le> n \<and> n < ppx \<and> off = bits - (jj + 1) * ddy * w + i * ddx - m * w + n"
      by (simp add: algebra_simps)
    then show ?thesis by blast
  qed
qed

lemma store_in_bitmap:
  fixes cx cy w h bd ddx ddy ppx ppy index jj i m n :: int
  assumes cx: "0 < cx" and idx: "0 \<le> index" "index < cx * cy"
    and d: "2 \<le> ddx" "2 \<le> ddy" and bd: "0 \<le> bd"
    and w: "cx * 35 * ddx + ppx + 2 * bd \<le> w"
    and h: "h = cy * 35 * ddy + ppy + 2 * bd"
    and jj: "0 \<le> jj" "jj < 32" and i: "0 \<le> i" "i < 32"
    and m: "0 \<le> m" "m < ppy" and n: "0 \<le> n" "n < ppx"
  defines "x \<equiv> (index mod cx) * 35 * ddx + 2 * ddx + bd"
    and "y \<equiv> (index div cx) * 35 * ddy + 2 * ddy + bd"
  shows "0 \<le> (h - y - 1) * w + x - jj * ddy * w + i * ddx - m * w + n"
    and "(h - y - 1) * w + x - jj * ddy * w + i * ddx - m * w + n < w * h"
proof -
  define col where "col = index mod cx"
  define row where "row = index div cx"
  have col: "0 \<le> col" "col \<le> cx - 1"
    using cx pos_mod_bound [of cx index] by (simp_all add: col_def)
  have row0: "0 \<le> row"
    using cx idx(1) by (simp add: row_def pos_imp_zdiv_nonneg_iff)
  have row1: "row \<le> cy - 1"
  proof (rule ccontr)
    assume "\<not> row \<le> cy - 1"
    then have "cy \<le> row" by simp
    then have "cx * cy \<le> cx * row"
      using cx by (intro mult_left_mono) auto
    moreover have "cx * row \<le> index"
      using pos_mod_sign [OF cx, of index]
      by (simp add: row_def minus_mod_eq_mult_div [symmetric])
    ultimately show False using idx(2) by simp
  qed
  define C where "C = x + i * ddx + n"
  define R where "R = h - y - 1 - jj * ddy - m"
  have e: "(h - y - 1) * w + x - jj * ddy * w + i * ddx - m * w + n = R * w + C"
    by (simp add: R_def C_def algebra_simps)
  have c1: "col * 35 * ddx \<le> cx * 35 * ddx - 35 * ddx"
  proof -
    have "col * (35 * ddx) \<le> (cx - 1) * (35 * ddx)"
      using col d by (intro mult_right_mono) auto
    then show ?thesis by (simp add: algebra_simps)
  qed
  have c2: "0 \<le> col * 35 * ddx"
    using col d by simp
  have c3: "i * ddx \<le> 31 * ddx" "0 \<le> i * ddx"
    using i d by (simp_all)
  have xc: "x = col * 35 * ddx + 2 * ddx + bd"
    by (simp add: x_def col_def)
  have C0: "0 \<le> C"
    unfolding C_def xc using c2 c3 d bd n by linarith
  have C1: "C < w"
    unfolding C_def xc using c1 c3 d bd n w by linarith
  have r1: "row * 35 * ddy \<le> cy * 35 * ddy - 35 * ddy"
  proof -
    have "row * (35 * ddy) \<le> (cy - 1) * (35 * ddy)"
      using row1 d by (intro mult_right_mono) auto
    then show ?thesis by (simp add: algebra_simps)
  qed
  have r2: "0 \<le> row * 35 * ddy"
    using row0 d by simp
  have r3: "jj * ddy \<le> 31 * ddy" "0 \<le> jj * ddy"
    using jj d by (simp_all)
  have yr: "y = row * 35 * ddy + 2 * ddy + bd"
    by (simp add: y_def row_def)
  have R0: "0 \<le> R"
    unfolding R_def yr h using r1 r3 d bd m by linarith
  have R1: "R \<le> h - 1"
    unfolding R_def yr using r2 r3 d bd m by linarith
  have w0: "0 \<le> w"
    using C0 C1 by simp
  have "0 \<le> R * w"
    using R0 w0 by simp
  then show "0 \<le> (h - y - 1) * w + x - jj * ddy * w + i * ddx - m * w + n"
    unfolding e using C0 by simp
  have "R * w \<le> (h - 1) * w"
    using R1 w0 by (intro mult_right_mono) auto
  then have "R * w + C < (h - 1) * w + w"
    using C1 by linarith
  then show "(h - y - 1) * w + x - jj * ddy * w + i * ddx - m * w + n < w * h"
    unfolding e by (simp add: algebra_simps)
qed

lemma dot_stores_first:
  assumes "0 < ppx" "0 < ppy"
  shows "at \<in> set (dot_stores at w ppx ppy)"
proof -
  have z: "(0::nat) \<in> set [0..<nat ppx]" "(0::nat) \<in> set [0..<nat ppy]"
    using assms by simp_all
  have "(\<lambda>n. at - int 0 * w + int n) 0 \<in> (\<lambda>n. at - int 0 * w + int n) ` set [0..<nat ppx]"
    using z(1) by (rule imageI)
  then have a: "at \<in> set (map (\<lambda>n. at - int 0 * w + int n) [0..<nat ppx])"
    by simp
  have "set (map (\<lambda>n. at - int 0 * w + int n) [0..<nat ppx])
          \<in> set (map (\<lambda>m. set (map (\<lambda>n. at - int m * w + int n) [0..<nat ppx])) [0..<nat ppy])"
    using z(2) by (simp only: set_map) (rule imageI)
  then show ?thesis
    unfolding dot_stores_def set_concat using a
    by (simp only: set_map image_image) blast
qed

lemma dots_row_first:
  assumes "t AND 1 \<noteq> 0" "0 < ppx" "0 < ppy"
  shows "bits + x \<in> set (dots_row (Suc k) t x bits w ddx ppx ppy)"
proof -
  have m: "bits + x \<in> set (dot_stores (bits + x) w ppx ppy)"
    using assms(2,3) by (rule dot_stores_first)
  have "dots_row (Suc k) t x bits w ddx ppx ppy
          = dot_stores (bits + x) w ppx ppy
            @ dots_row k (drop_bit 1 t) (x + ddx) bits w ddx ppx ppy"
    using assms(1) by (simp only: dots_row.simps not_False_eq_True if_True)
  then show ?thesis
    using m by (simp only: set_append Un_iff simp_thms)
qed

lemma dots_rows_first:
  assumes "block_word b 0 AND 1 = 0" "0 < ppx" "0 < ppy"
  shows "bits \<in> set (dots_rows (Suc k) 0 b bits w ddx ddy ppx ppy)"
proof -
  have "(block_word b 0 XOR 0x55555555) AND 1 = (block_word b 0 AND 1) XOR (0x55555555 AND 1)"
    by (rule bit.conj_xor_distrib2)
  also have "\<dots> = 1"
    unfolding assms(1) by simp
  finally have t: "(block_word b 0 XOR 0x55555555) AND 1 \<noteq> 0"
    by simp
  have "bits + 0 \<in> set (dots_row (Suc 31) (block_word b 0 XOR 0x55555555) 0 bits w ddx ppx ppy)"
    using t assms(2,3) by (rule dots_row_first)
  moreover have "Suc 31 = (32::nat)" by simp
  ultimately have r: "bits \<in> set (dots_row 32 (block_word b 0 XOR 0x55555555) 0 bits w ddx ppx ppy)"
    by (simp only: add_0_right)
  have "int 0 AND 1 = 0" by simp
  then have "dots_rows (Suc k) 0 b bits w ddx ddy ppx ppy
          = dots_row 32 (block_word b 0 XOR 0x55555555) 0 bits w ddx ppx ppy
            @ dots_rows k (Suc 0) b (bits - ddy * w) w ddx ddy ppx ppy"
    by (simp only: dots_rows.simps Let_def if_True simp_thms)
  then show ?thesis
    using r by (simp only: set_append Un_iff simp_thms)
qed

lemma page_height_le:
  assumes "planned X p"
  shows "width p * page_height X p \<le> width p * height p" and "0 \<le> width p"
proof -
  have d: "2 \<le> dy p" "2 \<le> dx p" and h: "height p = ny p * (NDOT + 3) * dy p + py p + 2 * border p"
    and w: "nx p * (NDOT + 3) * dx p + px p + 2 * border p \<le> width p"
    and o: "1 \<le> px p" "0 \<le> border p" "1 \<le> redundancy p" "redundancy p + 1 \<le> nx p"
    using assms by (simp_all add: planned_def)
  have "0 \<le> nx p * (NDOT + 3) * dx p"
    using d o by (simp add: NDOT_def)
  then show w0: "0 \<le> width p"
    using w o by linarith
  have "page_ny X p * ((NDOT + 3) * dy p) \<le> ny p * ((NDOT + 3) * dy p)"
    using page_ny_bounds(2) [OF assms] d by (intro mult_right_mono) (auto simp: NDOT_def)
  then have "page_height X p \<le> height p"
    by (simp add: page_height_def h mult.assoc)
  then show "width p * page_height X p \<le> width p * height p"
    using w0 by (intro mult_left_mono)
qed

text \<open>
  Claim C10. In a job prepared by Initializeprinting, for every cell index from 0 to
  nx * ny - 1 (ny and the height being those of the page at hand, reduced on a short
  last page) and every record, each pixel store of Drawblock lies inside the
  width * height bytes of the bitmap of the page, which lie inside the allocated
  buffer.
\<close>

theorem Drawblock_stores_inside:
  assumes "emit_reach X cfg print"
    and "0 \<le> index" and "index < nx print * page_ny X print"
    and "off \<in> set (snd (Drawblock X index block (width print) (page_height X print)
                            (border print) (nx print) (page_ny X print)
                            (dx print) (dy print) (px print) (py print)))"
  shows "0 \<le> off \<and> off < width print * page_height X print
         \<and> drawbits print = Some (width print * height print)
         \<and> width print * page_height X print \<le> width print * height print"
proof -
  have pl: "planned X print"
    using assms(1) by (rule emit_reach_planned)
  have x: "0 < nx print" and d: "2 \<le> dx print" "2 \<le> dy print" and b: "0 \<le> border print"
    and w: "nx print * 35 * dx print + px print + 2 * border print \<le> width print"
    and db: "drawbits print = Some (width print * height print)"
    using pl by (simp_all add: planned_def NDOT_def)
  have h: "page_height X print = page_ny X print * 35 * dy print + py print + 2 * border print"
    by (simp add: page_height_def NDOT_def)
  have sm: "index smod nx print = index mod nx print" "index sdiv nx print = index div nx print"
    using assms(2) x by (simp_all add: smod_nonneg sdiv_nonneg)
  let ?x = "(index mod nx print) * 35 * dx print + 2 * dx print + border print"
  let ?y = "(index div nx print) * 35 * dy print + 2 * dy print + border print"
  have "off \<in> set (dots_rows 32 0 (Drawblock_block X block)
           ((page_height X print - ?y - 1) * width print + ?x)
           (width print) (dx print) (dy print) (px print) (py print))"
    using assms(4) by (simp add: Drawblock_def Drawblock_stores_def Let_def sm NDOT_def)
  from dots_rows_mem [OF this] obtain jj i m n where
    r: "0 \<le> jj" "jj < 32" "0 \<le> i" "i < 32" "0 \<le> m" "m < py print" "0 \<le> n" "n < px print"
    and off: "off = (page_height X print - ?y - 1) * width print + ?x
                     - jj * dy print * width print + i * dx print - m * width print + n"
    by auto
  have "0 \<le> off" "off < width print * page_height X print"
    unfolding off
    by (rule store_in_bitmap [OF x assms(2,3) d b w h r])+
  then show ?thesis
    using db page_height_le(1) [OF pl] by simp
qed

lemma le_word_zeros: "le_word (replicate n 0) = 0"
  by (induction n) (simp_all add: le_word_def)

lemma block_word_0_addr_0:
  assumes "addr b = 0"
  shows "block_word b 0 = 0"
proof -
  have "le_bytes 4 (0 :: uint32) = replicate 4 0"
    by (simp add: le_bytes_def map_replicate_const)
  then have "take 4 (drop (4 * 0) (block_bytes b)) = replicate 4 0"
    using assms by (simp add: block_bytes_def)
  then show ?thesis
    by (simp only: block_word_def le_word_zeros)
qed

theorem Drawblock_stores_inside_witness:
  "emit_reach example_externals example_config example_prepared
   \<and> (0::int) \<le> 24
   \<and> 24 < nx example_prepared * page_ny example_externals example_prepared
   \<and> 654133 \<in> set (snd (Drawblock example_externals 24 example_block
                 (width example_prepared) (page_height example_externals example_prepared)
                 (border example_prepared) (nx example_prepared)
                 (page_ny example_externals example_prepared)
                 (dx example_prepared) (dy example_prepared)
                 (px example_prepared) (py example_prepared)))
   \<and> (0::int) \<le> 654133
   \<and> 654133 < width example_prepared * page_height example_externals example_prepared"
proof -
  have i: "(0::int) \<le> 24" by simp
  have j: "24 < nx example_prepared * page_ny example_externals example_prepared"
    by (simp add: example_prepared_fields example_page_values)
  have a: "addr (Drawblock_block example_externals example_block) = 0"
    by (simp add: Drawblock_block_addr example_block_def)
  have "block_word (Drawblock_block example_externals example_block) 0 AND 1 = 0"
    by (simp only: block_word_0_addr_0 [OF a]) simp
  then have "654133 \<in> set (dots_rows (Suc 31) 0 (Drawblock_block example_externals example_block)
                       654133 1808 10 10 7 7)"
    by (rule dots_rows_first) simp_all
  moreover have "Suc 31 = (32::nat)" by simp
  ultimately have "654133 \<in> set (dots_rows 32 0 (Drawblock_block example_externals example_block)
                       654133 1808 10 10 7 7)"
    by (simp only:)
  then have k: "654133 \<in> set (snd (Drawblock example_externals 24 example_block
                 (width example_prepared) (page_height example_externals example_prepared)
                 (border example_prepared) (nx example_prepared)
                 (page_ny example_externals example_prepared)
                 (dx example_prepared) (dy example_prepared)
                 (px example_prepared) (py example_prepared)))"
    by (simp add: Drawblock_def Drawblock_stores_def Let_def example_prepared_fields
        example_page_values NDOT_def)
  note T = Drawblock_stores_inside [OF example_reach i j k]
  show ?thesis
    using T example_reach i j k by blast
qed

section \<open>Groups and their redundancy block\<close>

lemma stamped_draw_at: "stamped (draw_at X p k b) = Drawblock_block X b"
  by (simp add: draw_at_def Drawblock_def)

lemma fill_block_addr: "addr (fill_block X p off) = off"
  by (simp add: fill_block_def Let_def)

lemma fill_block_superdata: "fill_block X (p\<lparr>superdata := s\<rparr>) off = fill_block X p off"
  by (simp add: fill_block_def)

lemma length_fill_block:
  assumes "0 \<le> NDATA X"
  shows "length (data (fill_block X p off)) = nat (NDATA X)"
proof -
  define l where "l = (if off < alignedsize p
               then (let l = sint (alignedsize p - off) in if l > NDATA X then NDATA X else l)
               else 0)"
  have "l \<le> NDATA X"
    using assms by (simp add: l_def Let_def)
  then have "length (take (nat l) (drop (unat off) (buf p))) \<le> nat (NDATA X)"
    by simp
  then show ?thesis
    by (simp add: fill_block_def Let_def l_def [symmetric])
qed

lemma fill_block_beyond:
  assumes "alignedsize p \<le> off"
  shows "data (fill_block X p off) = replicate (nat (NDATA X)) 0"
  using assms by (simp add: fill_block_def Let_def)

lemma map_NOT_xor:
  "map NOT (map2 (XOR) (a :: uchar list) d) = map2 (XOR) (map NOT a) d"
  by (simp add: zip_map1 case_prod_unfold)

lemma map_NOT_foldl:
  "map NOT (foldl (map2 (XOR)) (acc :: uchar list) ds) = foldl (map2 (XOR)) (map NOT acc) ds"
proof (induction ds arbitrary: acc)
  case Nil
  show ?case by simp
next
  case (Cons d ds)
  have "map NOT (foldl (map2 (XOR)) acc (d # ds)) = map NOT (foldl (map2 (XOR)) (map2 (XOR) acc d) ds)"
    by (simp only: foldl_Cons)
  also have "\<dots> = foldl (map2 (XOR)) (map NOT (map2 (XOR) acc d)) ds"
    by (rule Cons.IH)
  also have "\<dots> = foldl (map2 (XOR)) (map2 (XOR) (map NOT acc) d) ds"
    by (simp only: map_NOT_xor)
  also have "\<dots> = foldl (map2 (XOR)) (map NOT acc) (d # ds)"
    by (simp only: foldl_Cons)
  finally show ?case .
qed

lemma group_loop_data:
  "group_loop n X p i j off ck = (ds, off', ck') \<Longrightarrow>
     data ck' = foldl (map2 (XOR)) (data ck) (map (data \<circ> stamped) ds)
     \<and> length ds = n
     \<and> (\<forall>d\<in>set ds. stamped d = Drawblock_block X (fill_block X p (addr (stamped d))))"
proof (induction n arbitrary: j off ck ds off' ck')
  case 0
  then show ?case by simp
next
  case (Suc n)
  obtain ds1 off1 ck1 where rec: "group_loop n X p i (j + 1) (off + word_of_int (NDATA X))
        (xor_into ck (fill_block X p off)) = (ds1, off1, ck1)"
    by (metis prod_cases3)
  let ?d = "draw_at X p (data_cell (nx p) (redundancy p) (page_nstring X p) i j)
              (fill_block X p off)"
  have eq: "ds = ?d # ds1" "ck' = ck1"
    using Suc.prems by (simp_all add: Let_def rec)
  have d: "stamped ?d = Drawblock_block X (fill_block X p off)"
    by (rule stamped_draw_at)
  have da: "addr (stamped ?d) = off" "data (stamped ?d) = data (fill_block X p off)"
    by (simp_all add: d Drawblock_block_addr Drawblock_block_data fill_block_addr)
  note IH = Suc.IH [OF rec]
  have x: "data (xor_into ck (fill_block X p off))
             = map2 (XOR) (data ck) (data (fill_block X p off))"
    by (simp add: xor_into_def)
  show ?case
    unfolding eq using IH d da x by (simp del: stamped_draw_at)
qed

lemma strings_loop_groups:
  assumes "g \<in> set (strings_loop n X p i off)"
  shows "length g = nat (redundancy p) + 1
     \<and> data (stamped (last g))
         = map NOT (group_xor (nat (NDATA X)) (map (data \<circ> stamped) (butlast g)))
     \<and> (\<forall>d\<in>set (butlast g). stamped d = Drawblock_block X (fill_block X p (addr (stamped d))))"
  using assms
proof (induction n arbitrary: i off)
  case 0
  then show ?case by simp
next
  case (Suc n)
  let ?ck = "\<lparr>addr = off XOR word_of_int (push_bit 28 (redundancy p)),
          data = replicate (nat (NDATA X)) 0xFF, crc = 0, ecc = []\<rparr>"
  obtain ds off' ck' where g: "group_loop (nat (redundancy p)) X p i 0 off ?ck = (ds, off', ck')"
    by (metis prod_cases3)
  let ?g = "ds @ [draw_at X p (parity_cell (nx p) (redundancy p) (page_nstring X p) i) ck']"
  from Suc.prems consider (first) "g = ?g" | (rest) "g \<in> set (strings_loop n X p (i + 1) off')"
    by (auto simp: Let_def g)
  then show ?case
  proof cases
    case first
    note L = group_loop_data [OF g]
    have ff: "replicate (nat (NDATA X)) (0xFF :: uchar) = map NOT (replicate (nat (NDATA X)) 0)"
      by simp
    have "data ck' = map NOT (group_xor (nat (NDATA X)) (map (data \<circ> stamped) ds))"
      using L by (simp only: group_xor_def map_NOT_foldl t_data.simps ff [symmetric])
    then show ?thesis
      using L by (simp add: first stamped_draw_at Drawblock_block_data o_def)
  next
    case rest
    then show ?thesis by (rule Suc.IH)
  qed
qed

lemma length_strings_loop: "length (strings_loop n X p i off) = n"
  by (induction n arbitrary: i off) (simp_all add: Let_def split: prod.splits)

lemma length_map2_xor:
  "length a = n \<Longrightarrow> length d = n \<Longrightarrow> length (map2 (XOR) (a :: uchar list) d) = n"
  by simp

lemma length_group_xor_acc:
  "length acc = n \<Longrightarrow> \<forall>d\<in>set ds. length d = n
     \<Longrightarrow> length (foldl (map2 (XOR)) (acc :: uchar list) ds) = n"
  by (induction ds arbitrary: acc) simp_all

lemma length_group_xor:
  "\<forall>d\<in>set ds. length d = n \<Longrightarrow> length (group_xor n ds) = n"
  by (simp add: group_xor_def length_group_xor_acc)

lemma NOT_neq_self: "NOT (x :: uchar) \<noteq> x"
proof
  assume "NOT x = x"
  then have "bit (NOT x) 0 = bit x 0" by simp
  then show False by (simp add: bit_not_iff)
qed

lemma map_NOT_neq:
  assumes "xs \<noteq> []"
  shows "map NOT (xs :: uchar list) \<noteq> xs"
proof
  assume "map NOT xs = xs"
  then have "hd (map NOT xs) = hd xs" by simp
  then have "NOT (hd xs) = hd xs" using assms by (simp add: hd_map)
  then show False using NOT_neq_self by blast
qed

lemma draw_page_groups:
  assumes "g \<in> set (groups (draw_page X p))"
  shows "length g = nat (redundancy p) + 1"
    and "data (stamped (last g))
         = map NOT (group_xor (nat (NDATA X)) (map (data \<circ> stamped) (butlast g)))"
    and "\<forall>d\<in>set (butlast g). stamped d = Drawblock_block X (fill_block X p (addr (stamped d)))"
proof -
  have "g \<in> set (strings_loop (nat (page_nstring X p)) X p 0 (page_offset p))"
    using assms by (simp add: draw_page_def Let_def)
  from strings_loop_groups [OF this]
  show "length g = nat (redundancy p) + 1"
    and "data (stamped (last g))
         = map NOT (group_xor (nat (NDATA X)) (map (data \<circ> stamped) (butlast g)))"
    and "\<forall>d\<in>set (butlast g). stamped d = Drawblock_block X (fill_block X p (addr (stamped d)))"
    by simp_all
qed

text \<open>
  Claim C1, as the code has it. On every page that Printnextpage draws, every group
  has its \<open>redundancy\<close> data blocks followed by one redundancy block, and the data of
  the redundancy block is the byte-wise complement of the byte-wise XOR of the data of
  the data blocks: the accumulator starts from bytes 0xFF. Each data block holds the
  bytes of the buffer at its address, and a block at or beyond the end of the data is
  all zero.
\<close>

theorem parity_complement:
  assumes "Printnextpage X f print = Inr (print', eff)" and "drawing eff = Some pg"
    and "g \<in> set (groups pg)"
  shows "length g = nat (redundancy print) + 1
     \<and> data (stamped (last g))
         = map NOT (group_xor (nat (NDATA X)) (map (data \<circ> stamped) (butlast g)))
     \<and> (\<forall>d\<in>set (butlast g).
           stamped d = Drawblock_block X (fill_block X print (addr (stamped d))))
     \<and> (\<forall>d\<in>set (butlast g). alignedsize print \<le> addr (stamped d)
           \<longrightarrow> data (stamped d) = replicate (nat (NDATA X)) 0)"
proof -
  let ?p = "print\<lparr>superdata := (superdata print)\<lparr>spage := word_of_int (frompage print + 1)\<rparr>\<rparr>"
  have "g \<in> set (groups (draw_page X ?p))"
    using assms(3) by (simp add: Printnextpage_drawing(1) [OF assms(1,2)])
  from draw_page_groups [OF this]
  have a: "length g = nat (redundancy print) + 1"
    and b: "data (stamped (last g))
         = map NOT (group_xor (nat (NDATA X)) (map (data \<circ> stamped) (butlast g)))"
    and c: "\<forall>d\<in>set (butlast g).
           stamped d = Drawblock_block X (fill_block X print (addr (stamped d)))"
    by (simp_all add: fill_block_superdata)
  have "data (stamped d) = replicate (nat (NDATA X)) 0"
    if "d \<in> set (butlast g)" "alignedsize print \<le> addr (stamped d)" for d
  proof -
    have "data (stamped d) = data (fill_block X print (addr (stamped d)))"
      using c that(1) Drawblock_block_data [of X "fill_block X print (addr (stamped d))"]
      by simp
    then show ?thesis
      using fill_block_beyond [OF that(2)] by simp
  qed
  then show ?thesis
    using a b c by blast
qed

lemma example_group: "hd (groups example_page) \<in> set (groups example_page)"
proof -
  have "length (groups example_page) = 6"
    by (simp add: example_page_def draw_page_def Let_def length_strings_loop
        example_stamped_def page_superdata_simps example_page_values)
  then have "groups example_page \<noteq> []" by auto
  then show ?thesis by (rule hd_in_set)
qed

theorem parity_complement_witness:
  "Printnextpage example_externals all_written example_prepared
       = Inr (example_next, \<lparr>reported = [], drawing = Some example_page\<rparr>)
   \<and> drawing \<lparr>reported = [], drawing = Some example_page\<rparr> = Some example_page
   \<and> hd (groups example_page) \<in> set (groups example_page)
   \<and> length (hd (groups example_page)) = 3
   \<and> data (stamped (last (hd (groups example_page))))
       = map NOT (group_xor (nat (NDATA example_externals))
            (map (data \<circ> stamped) (butlast (hd (groups example_page)))))"
proof -
  have d: "drawing \<lparr>reported = [], drawing = Some example_page\<rparr> = Some example_page"
    by simp
  note T = parity_complement [OF example_Printnextpage d example_group]
  have "nat (redundancy example_prepared) + 1 = 3"
    by (simp add: example_prepared_fields)
  then show ?thesis
    using T example_Printnextpage d example_group by simp
qed

text \<open>The claim as the specification words it fails on the first group of the example
  page: the data of its redundancy block is not the XOR of the data of its data
  blocks.\<close>

theorem parity_not_xor:
  "data (stamped (last (hd (groups example_page))))
     \<noteq> group_xor (nat (NDATA example_externals))
         (map (data \<circ> stamped) (butlast (hd (groups example_page))))"
proof -
  let ?g = "hd (groups example_page)"
  let ?x = "group_xor (nat (NDATA example_externals)) (map (data \<circ> stamped) (butlast ?g))"
  have g: "?g \<in> set (groups (draw_page example_externals example_stamped))"
    using example_group by (simp add: example_page_def)
  note G = draw_page_groups [OF g]
  have nd: "0 \<le> NDATA example_externals" "nat (NDATA example_externals) = 90"
    by (simp_all add: example_externals_def)
  have "length (data (stamped m)) = nat (NDATA example_externals)" if "m \<in> set (butlast ?g)" for m
  proof -
    have "data (stamped m)
            = data (fill_block example_externals example_stamped (addr (stamped m)))"
      using G(3) that
        Drawblock_block_data [of example_externals
          "fill_block example_externals example_stamped (addr (stamped m))"]
      by simp
    then show ?thesis
      using length_fill_block [OF nd(1)] by simp
  qed
  then have "length ?x = nat (NDATA example_externals)"
    by (intro length_group_xor) auto
  then have "?x \<noteq> []"
    using nd(2) by auto
  then have "map NOT ?x \<noteq> ?x"
    by (rule map_NOT_neq)
  then show ?thesis
    using G(2) by simp
qed

section \<open>Columns of a group\<close>

text \<open>
  Claim C3, on the code: when nstring + 1 >= nx, the blocks of one group should lie in
  pairwise different columns. The first page of the example job has nx = 5 and
  nstring = 6; the two data blocks and the redundancy block of its group 3 are drawn in
  the cells 4, 8 and 14, and the cells 4 and 14 both lie in column 4.
\<close>

theorem same_column_in_group:
  "nx example_prepared \<le> page_nstring example_externals example_prepared + 1
   \<and> map cell (groups example_page ! 3) = [4, 8, 14]
   \<and> (4::int) smod nx example_prepared = 14 smod nx example_prepared"
proof -
  have a: "nx example_prepared \<le> page_nstring example_externals example_prepared + 1"
    by (simp add: example_prepared_fields example_page_values)
  have r: "0 \<le> redundancy example_stamped"
    by (simp add: example_stamped_def example_prepared_fields)
  have g: "groups example_page = strings_loop 6 example_externals example_stamped 0 0"
    by (simp add: example_page_def draw_page_def Let_def example_stamped_def
        page_superdata_simps example_page_values)
  have "map (map cell) (groups example_page)
          = map (\<lambda>i. map (data_cell 5 2 6 i) [0..2]) [0..5]"
    unfolding g strings_loop_cells [OF r]
    by (simp add: example_stamped_def page_superdata_simps example_page_values
        example_prepared_fields)
  then have "map (map cell) (groups example_page) ! 3 = map (data_cell 5 2 6 3) [0..2]"
    by (simp add: upto_rec_numeral)
  moreover have "length (groups example_page) = 6"
    by (simp add: g length_strings_loop)
  ultimately have "map cell (groups example_page ! 3) = map (data_cell 5 2 6 3) [0..2]"
    by simp
  also have "\<dots> = [4, 8, 14]"
    by (simp add: upto.simps data_cell_def)
  finally have b: "map cell (groups example_page ! 3) = [4, 8, 14]" .
  have c: "(4::int) smod nx example_prepared = 14 smod nx example_prepared"
    by (simp add: example_prepared_fields)
  show ?thesis
    using a b c by blast
qed

section \<open>Progress of the emit phase\<close>

























end
